theory Spec2Isabelle
  imports Main "HOL-Library.Sublist"
begin

section \<open>JavaScript strings and values used by the scraper\<close>

text \<open>
  Strings are \<^typ>\<open>string\<close>. A value of type \<open>string | null | undefined\<close> is a
  \<^typ>\<open>string option\<close>: \<open>None\<close> stands for both \<open>null\<close> and \<open>undefined\<close>, which
  the code never tells apart (it only tests truthiness or applies \<open>?.\<close>).
\<close>

text \<open>The white space that \<open>String.prototype.trim\<close> strips, as far as it fits in a \<^typ>\<open>char\<close>.\<close>

definition isWhiteSpace :: "char \<Rightarrow> bool" where
  "isWhiteSpace c \<longleftrightarrow>
     c \<in> set [CHR 0x09, CHR 0x0A, CHR 0x0B, CHR 0x0C, CHR 0x0D, CHR '' '', CHR 0xA0]"

definition trim :: "string \<Rightarrow> string" where
  "trim s = rev (dropWhile isWhiteSpace (rev (dropWhile isWhiteSpace s)))"

text \<open>\<open>s.includes(sub)\<close>: \<open>sub\<close> occurs in \<open>s\<close> as a contiguous run, compared character by character.\<close>

fun includes_str :: "string \<Rightarrow> string \<Rightarrow> bool" where
  "includes_str [] sub = (sub = [])"
| "includes_str (c # cs) sub = (prefix sub (c # cs) \<or> includes_str cs sub)"

text \<open>\<open>s.endsWith(t)\<close>.\<close>

definition endsWith :: "string \<Rightarrow> string \<Rightarrow> bool" where
  "endsWith s t = suffix t s"

text \<open>Truthiness of a \<open>string | null | undefined\<close>: only a non-empty string is truthy.\<close>

definition truthy :: "string option \<Rightarrow> bool" where
  "truthy v = (case v of None \<Rightarrow> False | Some s \<Rightarrow> s \<noteq> [])"

text \<open>\<open>v || null\<close>.\<close>

definition or_null :: "string option \<Rightarrow> string option" where
  "or_null v = (if truthy v then v else None)"

text \<open>The decimal numeral a template literal prints for a page counter.\<close>

definition digit_char :: "nat \<Rightarrow> char" where
  "digit_char d = char_of (of_char CHR ''0'' + d)"

fun decimal :: "nat \<Rightarrow> string" where
  "decimal n = (if n < 10 then [digit_char n] else decimal (n div 10) @ [digit_char (n mod 10)])"

section \<open>The rendered page, as the selectors of the code see it\<close>

text \<open>An element is what the code reads of it: \<open>textContent\<close> and \<open>getAttribute("href")\<close>.\<close>

record element =
  textContent :: "string option"
  href :: "string option"

text \<open>
  A property card (\<open>div[class*="StyledPropertyCardDataWrapper"]\<close>), given by the result of
  each query the extractor runs on it: the three \<open>querySelector\<close> calls (\<open>None\<close> when
  nothing matches) and the \<open>querySelectorAll\<close> of the details list, in document order.
\<close>

record card =
  price_span :: "element option"
  addr_el :: "element option"
  link_a :: "element option"
  details_li :: "element list"

text \<open>
  A page: its origin, the value of \<open>document.body.scrollHeight\<close> read by the n-th timer
  callback of a scroll (n = 0, 1, ...), the two search boxes, the anchors \<open>h2 > a\<close> and the
  property cards, both in document order.
\<close>

record page =
  origin :: string
  scrollHeight :: "nat \<Rightarrow> nat"
  textarea_q :: "element option"
  input_q :: "element option"
  h2_anchors :: "element list"
  cards :: "card list"

definition blank_page :: page where
  "blank_page = \<lparr>origin = ''null'', scrollHeight = (\<lambda>n. 0), textarea_q = None,
     input_q = None, h2_anchors = [], cards = []\<rparr>"

text \<open>
  The interface \<open>Listing\<close>. The optional properties \<open>beds\<close> and \<open>baths\<close> are \<open>None\<close>
  when the extractor does not set them.
\<close>

record listing =
  price :: "string option"
  address :: "string option"
  link :: "string option"
  beds :: "string option"
  baths :: "string option"

section \<open>Errors, outcomes and the observable trace\<close>

text \<open>
  \<open>Error m\<close> is \<open>new Error(m)\<close> thrown by the code itself. The others are thrown by the
  platform: a failed launch, the time-out of \<open>waitForSelector\<close>, a failed or timed-out
  navigation, and the \<open>TypeError\<close> of the \<open>URL\<close> constructor.
\<close>

datatype error = Error string | LaunchError | TimeoutError | NavigationError | InvalidURL

text \<open>An awaited call returns, throws, or never settles.\<close>

datatype 'a outcome = Returns 'a | Throws error | Never

datatype payload =
    ErrorMessage string
  | Failure error
  | Scraped string string "listing list"

text \<open>
  What the operation does to the outside, in order. \<open>Scraping_page n\<close> is the console line
  at the head of the pagination loop body; \<open>Respond status body\<close> is the HTTP response.
\<close>

datatype event =
    Launch
  | NewPage
  | Goto string
  | Type_text string
  | Press string
  | Scraping_page nat
  | AutoScroll
  | Evaluate
  | Close
  | Respond nat payload

record world =
  trace :: "event list"
  current :: page

definition emit :: "event \<Rightarrow> world \<Rightarrow> world" where
  "emit e w = w\<lparr>trace := trace w @ [e]\<rparr>"

text \<open>
  The environment of one operation: whether the browser starts, the page each address
  serves (\<open>None\<close>: the navigation fails), the page a submitted search leads to, and the
  \<open>URL\<close> constructor \<open>new URL(link, base).href\<close> (\<open>None\<close>: it throws).
\<close>

record env =
  launch_ok :: bool
  site :: "string \<Rightarrow> page option"
  search_results :: "string \<Rightarrow> page option"
  new_URL :: "string \<Rightarrow> string \<Rightarrow> string option"

definition initial :: world where
  "initial = \<lparr>trace = [], current = blank_page\<rparr>"

section \<open>puppeteer.service: autoScroll\<close>

text \<open>
  \<open>autoScroll\<close> of services/puppeteer.service.ts (lines 27 to 42); scrape.ts repeats it
  word for word. \<open>window.scrollBy\<close> acts on the page only, whose answer is the
  height it reports at the next reading.
\<close>

definition distance :: nat where
  "distance = 100"

text \<open>
  The timer callback, run for the n-th time with the distance scrolled so far. The result
  is the final \<open>totalHeight\<close>; \<open>None\<close> when the promise is never resolved.
\<close>

partial_function (option) timer :: "(nat \<Rightarrow> nat) \<Rightarrow> nat \<Rightarrow> nat \<Rightarrow> nat option" where
  "timer height n totalHeight =
     (let totalHeight' = totalHeight + distance
      in if totalHeight' \<ge> height n then Some totalHeight'
         else timer height (Suc n) totalHeight')"

declare timer.simps [code]

text \<open>The promise of \<open>autoScroll\<close>: the first callback finds \<open>totalHeight = 0\<close>.\<close>

definition scroll_ticks :: "(nat \<Rightarrow> nat) \<Rightarrow> nat option" where
  "scroll_ticks height = timer height 0 0"

definition autoScroll :: "world \<Rightarrow> unit outcome \<times> world" where
  "autoScroll w =
     (case scroll_ticks (scrollHeight (current w)) of
        None \<Rightarrow> (Never, emit AutoScroll w)
      | Some _ \<Rightarrow> (Returns (), emit AutoScroll w))"

section \<open>Page operations\<close>

text \<open>\<open>page.goto(url, {waitUntil: "domcontentloaded"})\<close>.\<close>

definition goto :: "env \<Rightarrow> string \<Rightarrow> world \<Rightarrow> unit outcome \<times> world" where
  "goto E url w =
     (case site E url of
        None \<Rightarrow> (Throws NavigationError, emit (Goto url) w)
      | Some p \<Rightarrow> (Returns (), (emit (Goto url) w)\<lparr>current := p\<rparr>))"

section \<open>zillow.service: getZillowURL\<close>

text \<open>
  \<open>getZillowURL\<close> of the module zillow.service (services/puppeteer.service.ts, lines 53
  to 76); scrape.ts repeats it. The fixed delay and the delay between typed characters
  take time only and are left out. \<open>waitForSelector\<close> throws when neither search box
  is there.
\<close>

text \<open>The function evaluated in the result page.\<close>

definition zillow_link :: "element list \<Rightarrow> string option" where
  "zillow_link searchResults =
     (case find (\<lambda>el. case textContent el of None \<Rightarrow> False | Some t \<Rightarrow> includes_str t ''Zillow'')
             searchResults of
        None \<Rightarrow> None
      | Some zillowResult \<Rightarrow> href zillowResult)"

definition bing :: string where
  "bing = ''https://www.bing.com/''"

definition getZillowURL :: "env \<Rightarrow> string \<Rightarrow> world \<Rightarrow> string option outcome \<times> world" where
  "getZillowURL E q w =
     (case goto E bing w of
        (Throws e, w1) \<Rightarrow> (Throws e, w1)
      | (Never, w1) \<Rightarrow> (Never, w1)
      | (Returns _, w1) \<Rightarrow>
          if textarea_q (current w1) = None \<and> input_q (current w1) = None
          then (Throws TimeoutError, w1)
          else
            (case (case textarea_q (current w1) of Some b \<Rightarrow> Some b
                   | None \<Rightarrow> input_q (current w1)) of
               None \<Rightarrow> (Throws (Error ''Search box not found.''), w1)
             | Some searchBox \<Rightarrow>
                 (let w2 = emit (Press ''Enter'') (emit (Type_text q) w1)
                  in case search_results E q of
                       None \<Rightarrow> (Throws NavigationError, w2)
                     | Some p \<Rightarrow>
                         (Returns (zillow_link (h2_anchors p)),
                          emit Evaluate (w2\<lparr>current := p\<rparr>)))))"

section \<open>zillow.service: the listing extractor\<close>

text \<open>
  The function that \<open>scrapeZillowListings\<close> evaluates in the page
  (services/puppeteer.service.ts, lines 97 to 111, and the same in scrape.ts), and its
  variant with beds and baths (lines 212 to 233).
\<close>

text \<open>\<open>el?.textContent?.trim() || null\<close>.\<close>

definition trimmed_text :: "element option \<Rightarrow> string option" where
  "trimmed_text el = or_null (map_option trim (Option.bind el textContent))"

text \<open>
  \<open>let link = card.querySelector(...)?.getAttribute("href");
  link = link ? new URL(link, baseUrl).href : null\<close>.
\<close>

definition card_link :: "env \<Rightarrow> string \<Rightarrow> card \<Rightarrow> error + string option" where
  "card_link E baseUrl c =
     (case Option.bind (link_a c) href of
        None \<Rightarrow> Inr None
      | Some l \<Rightarrow>
          if l = [] then Inr None
          else (case new_URL E l baseUrl of
                  None \<Rightarrow> Inl InvalidURL
                | Some h \<Rightarrow> Inr (Some h)))"

text \<open>The callback of \<open>cards.forEach\<close>: the record pushed for one card.\<close>

definition card_record :: "env \<Rightarrow> string \<Rightarrow> card \<Rightarrow> error + listing" where
  "card_record E baseUrl c =
     (case card_link E baseUrl c of
        Inl e \<Rightarrow> Inl e
      | Inr l \<Rightarrow>
          Inr \<lparr>price = trimmed_text (price_span c), address = trimmed_text (addr_el c),
               link = l, beds = None, baths = None\<rparr>)"

text \<open>The variant that also reads the details list, for beds and baths.\<close>

definition card_record_details :: "env \<Rightarrow> string \<Rightarrow> card \<Rightarrow> error + listing" where
  "card_record_details E baseUrl c =
     (case card_link E baseUrl c of
        Inl e \<Rightarrow> Inl e
      | Inr l \<Rightarrow>
          (let detailsList = details_li c
           in Inr \<lparr>price = trimmed_text (price_span c), address = trimmed_text (addr_el c),
                    link = l,
                    beds = (if length detailsList > 0
                            then trimmed_text (Some (detailsList ! 0)) else None),
                    baths = (if length detailsList > 1
                             then trimmed_text (Some (detailsList ! 1)) else None)\<rparr>))"

text \<open>\<open>cards.forEach((card) => { ...; results.push(...) })\<close>; a throwing callback ends it.\<close>

fun forEach_push :: "(card \<Rightarrow> error + listing) \<Rightarrow> card list \<Rightarrow> listing list \<Rightarrow> error + listing list" where
  "forEach_push f [] results = Inr results"
| "forEach_push f (c # cs) results =
     (case f c of
        Inl e \<Rightarrow> Inl e
      | Inr r \<Rightarrow> forEach_push f cs (results @ [r]))"

text \<open>The function evaluated in a listing page, in its two variants.\<close>

definition extract_listings :: "env \<Rightarrow> page \<Rightarrow> error + listing list" where
  "extract_listings E p = forEach_push (card_record E (origin p)) (cards p) []"

definition extract_listings_details :: "env \<Rightarrow> page \<Rightarrow> error + listing list" where
  "extract_listings_details E p = forEach_push (card_record_details E (origin p)) (cards p) []"

text \<open>\<open>page.evaluate\<close> of an extractor on the current page.\<close>

definition evaluate :: "(page \<Rightarrow> error + listing list) \<Rightarrow> world \<Rightarrow> listing list outcome \<times> world" where
  "evaluate f w =
     (case f (current w) of
        Inl e \<Rightarrow> (Throws e, emit Evaluate w)
      | Inr ls \<Rightarrow> (Returns ls, emit Evaluate w))"

section \<open>zillow.service: scrapeZillowListings\<close>

text \<open>
  \<open>scrapeZillowListings\<close> of the module zillow.service (services/puppeteer.service.ts,
  lines 84 to 124): four pages, whatever they hold.
\<close>

definition maxPages :: nat where
  "maxPages = 4"

text \<open>\<open>`${baseUrl}${pageCounter}_p/`\<close>.\<close>

definition nextPageUrl :: "string \<Rightarrow> nat \<Rightarrow> string" where
  "nextPageUrl baseUrl pageCounter = baseUrl @ decimal pageCounter @ ''_p/''"

text \<open>The \<open>while\<close> loop, entered with the current \<open>pageCounter\<close> and \<open>allListings\<close>.\<close>

function scrapeZillowListings_while ::
  "env \<Rightarrow> string \<Rightarrow> nat \<Rightarrow> listing list \<Rightarrow> world \<Rightarrow> listing list outcome \<times> world" where
  "scrapeZillowListings_while E baseUrl pageCounter allListings w =
     (if pageCounter \<le> maxPages then
        (case autoScroll (emit (Scraping_page pageCounter) w) of
           (Throws e, w1) \<Rightarrow> (Throws e, w1)
         | (Never, w1) \<Rightarrow> (Never, w1)
         | (Returns _, w1) \<Rightarrow>
             (case evaluate (extract_listings E) w1 of
                (Throws e, w2) \<Rightarrow> (Throws e, w2)
              | (Never, w2) \<Rightarrow> (Never, w2)
              | (Returns listings, w2) \<Rightarrow>
                  (case goto E (nextPageUrl baseUrl (pageCounter + 1)) w2 of
                     (Throws e, w3) \<Rightarrow> (Throws e, w3)
                   | (Never, w3) \<Rightarrow> (Never, w3)
                   | (Returns _, w3) \<Rightarrow>
                       scrapeZillowListings_while E baseUrl (pageCounter + 1)
                         (allListings @ listings) w3)))
      else (Returns allListings, w))"
  by pat_completeness auto
termination
  by (relation "measure (\<lambda>(E, baseUrl, pageCounter, allListings, w). Suc maxPages - pageCounter)")
     auto

declare scrapeZillowListings_while.simps [simp del]

definition scrapeZillowListings :: "env \<Rightarrow> string \<Rightarrow> world \<Rightarrow> listing list outcome \<times> world" where
  "scrapeZillowListings E baseUrl w = scrapeZillowListings_while E baseUrl 1 [] w"

section \<open>scrape.ts: scrapeZillowListings, which stops at an empty page\<close>

text \<open>
  \<open>scrapeZillowListings\<close> of scrape.ts (lines 89 to 135): the \<open>break\<close> leaves the loop
  before the listings of the empty page are pushed and before the counter is advanced.
  Both branches of the conditional that builds the next address are the same template.
\<close>

function scrapeZillowListings_scrape_while ::
  "env \<Rightarrow> string \<Rightarrow> nat \<Rightarrow> listing list \<Rightarrow> world \<Rightarrow> listing list outcome \<times> world" where
  "scrapeZillowListings_scrape_while E baseUrl pageCounter allListings w =
     (if pageCounter \<le> maxPages then
        (case autoScroll (emit (Scraping_page pageCounter) w) of
           (Throws e, w1) \<Rightarrow> (Throws e, w1)
         | (Never, w1) \<Rightarrow> (Never, w1)
         | (Returns _, w1) \<Rightarrow>
             (case evaluate (extract_listings E) w1 of
                (Throws e, w2) \<Rightarrow> (Throws e, w2)
              | (Never, w2) \<Rightarrow> (Never, w2)
              | (Returns listings, w2) \<Rightarrow>
                  if length listings = 0 then (Returns allListings, w2)
                  else
                    (case goto E
                            (if pageCounter + 1 = 2 then nextPageUrl baseUrl (pageCounter + 1)
                             else nextPageUrl baseUrl (pageCounter + 1)) w2 of
                       (Throws e, w3) \<Rightarrow> (Throws e, w3)
                     | (Never, w3) \<Rightarrow> (Never, w3)
                     | (Returns _, w3) \<Rightarrow>
                         scrapeZillowListings_scrape_while E baseUrl (pageCounter + 1)
                           (allListings @ listings) w3)))
      else (Returns allListings, w))"
  by pat_completeness auto
termination
  by (relation "measure (\<lambda>(E, baseUrl, pageCounter, allListings, w). Suc maxPages - pageCounter)")
     auto

declare scrapeZillowListings_scrape_while.simps [simp del]

definition scrapeZillowListings_scrape :: "env \<Rightarrow> string \<Rightarrow> world \<Rightarrow> listing list outcome \<times> world" where
  "scrapeZillowListings_scrape E baseUrl w = scrapeZillowListings_scrape_while E baseUrl 1 [] w"

section \<open>The single-page variant: scrapeZillowListings with beds and baths\<close>

text \<open>The earlier stand-alone script (services/puppeteer.service.ts, lines 207 to 233).\<close>

definition scrapeZillowListings_single :: "env \<Rightarrow> world \<Rightarrow> listing list outcome \<times> world" where
  "scrapeZillowListings_single E w =
     (case autoScroll w of
        (Throws e, w1) \<Rightarrow> (Throws e, w1)
      | (Never, w1) \<Rightarrow> (Never, w1)
      | (Returns _, w1) \<Rightarrow> evaluate (extract_listings_details E) w1)"

section \<open>The request handlers\<close>

text \<open>
  The JSON body of a request: the fields \<open>query\<close> and \<open>city\<close>, strings as the
  interface requires, \<open>None\<close> when the body lacks the field. The handlers test them
  for truthiness, so an empty string is rejected like a missing field. A field inside a
  template literal prints as itself, a missing one as \<open>undefined\<close>.
\<close>

record request =
  body_query :: "string option"
  body_city :: "string option"

definition template :: "string option \<Rightarrow> string" where
  "template v = (case v of None \<Rightarrow> ''undefined'' | Some s \<Rightarrow> s)"

definition please_provide :: string where
  "please_provide =
     ''Please provide both '' @ [CHR 0x22] @ ''query'' @ [CHR 0x22] @ '' and '' @
     [CHR 0x22] @ ''city'' @ [CHR 0x22] @ ''.''"

text \<open>\<open>puppeteer.launch\<close>: \<open>Launch\<close> is recorded when a browser process has started.\<close>

definition launchBrowser :: "env \<Rightarrow> world \<Rightarrow> unit outcome \<times> world" where
  "launchBrowser E w =
     (if launch_ok E then (Returns (), emit Launch w) else (Throws LaunchError, w))"

text \<open>
  \<open>browser.newPage()\<close>: the new page is blank. Setting the navigation time-out and the
  user agent configures the page and leaves no event.
\<close>

definition newPage :: "world \<Rightarrow> world" where
  "newPage w = (emit NewPage w)\<lparr>current := blank_page\<rparr>"

text \<open>
  The \<open>catch\<close> clause shared by the handlers: a thrown error is answered with status 500
  and the error as text. A body that never settles answers nothing.
\<close>

definition catch_respond :: "unit outcome \<times> world \<Rightarrow> world" where
  "catch_respond r =
     (case r of
        (Returns _, w) \<Rightarrow> w
      | (Throws e, w) \<Rightarrow> emit (Respond 500 (Failure e)) w
      | (Never, w) \<Rightarrow> w)"

subsection \<open>scraper.controller: scrapeListings\<close>

text \<open>controllers/scraper.controller.ts, lines 5 to 34: the body of \<open>try\<close>, then the handler.\<close>

definition scrapeListings_try :: "env \<Rightarrow> request \<Rightarrow> world \<Rightarrow> unit outcome \<times> world" where
  "scrapeListings_try E req w =
     (let query = body_query req; city = body_city req
      in if \<not> truthy query \<or> \<not> truthy city
         then (Returns (), emit (Respond 400 (ErrorMessage please_provide)) w)
         else
           (case launchBrowser E w of
              (Throws e, w1) \<Rightarrow> (Throws e, w1)
            | (Never, w1) \<Rightarrow> (Never, w1)
            | (Returns _, w1) \<Rightarrow>
                (case getZillowURL E (template query @ '' '' @ template city) (newPage w1) of
                   (Throws e, w2) \<Rightarrow> (Throws e, w2)
                 | (Never, w2) \<Rightarrow> (Never, w2)
                 | (Returns None, w2) \<Rightarrow> (Throws (Error ''No Zillow link found.''), w2)
                 | (Returns (Some zillowUrl), w2) \<Rightarrow>
                     if zillowUrl = [] then (Throws (Error ''No Zillow link found.''), w2)
                     else
                       (case goto E zillowUrl w2 of
                          (Throws e, w3) \<Rightarrow> (Throws e, w3)
                        | (Never, w3) \<Rightarrow> (Never, w3)
                        | (Returns _, w3) \<Rightarrow>
                            (case scrapeZillowListings E zillowUrl w3 of
                               (Throws e, w4) \<Rightarrow> (Throws e, w4)
                             | (Never, w4) \<Rightarrow> (Never, w4)
                             | (Returns listings, w4) \<Rightarrow>
                                 (Returns (),
                                  emit (Respond 200 (Scraped (template query) (template city) listings))
                                    (emit Close w4)))))))"

definition scrapeListings :: "env \<Rightarrow> request \<Rightarrow> world" where
  "scrapeListings E req = catch_respond (scrapeListings_try E req initial)"

subsection \<open>scrape.ts: the route /scrape\<close>

text \<open>scrape.ts, lines 138 to 179.\<close>

text \<open>\<open>zillowUrl.endsWith("/") ? zillowUrl : `${zillowUrl}/`\<close>.\<close>

definition baseUrl_of :: "string \<Rightarrow> string" where
  "baseUrl_of zillowUrl = (if endsWith zillowUrl ''/'' then zillowUrl else zillowUrl @ ''/'')"

definition post_scrape_try :: "env \<Rightarrow> request \<Rightarrow> world \<Rightarrow> unit outcome \<times> world" where
  "post_scrape_try E req w =
     (let query = body_query req; city = body_city req
      in if \<not> truthy query \<or> \<not> truthy city
         then (Returns (), emit (Respond 400 (ErrorMessage please_provide)) w)
         else
           (case launchBrowser E w of
              (Throws e, w1) \<Rightarrow> (Throws e, w1)
            | (Never, w1) \<Rightarrow> (Never, w1)
            | (Returns _, w1) \<Rightarrow>
                (case getZillowURL E (template query @ '' '' @ template city) (newPage w1) of
                   (Throws e, w2) \<Rightarrow> (Throws e, w2)
                 | (Never, w2) \<Rightarrow> (Never, w2)
                 | (Returns None, w2) \<Rightarrow>
                     (Throws (Error ''No Zillow link found in search results.''), w2)
                 | (Returns (Some zillowUrl), w2) \<Rightarrow>
                     if zillowUrl = []
                     then (Throws (Error ''No Zillow link found in search results.''), w2)
                     else
                       (let baseUrl = baseUrl_of zillowUrl
                        in case goto E baseUrl w2 of
                             (Throws e, w3) \<Rightarrow> (Throws e, w3)
                           | (Never, w3) \<Rightarrow> (Never, w3)
                           | (Returns _, w3) \<Rightarrow>
                               (case scrapeZillowListings_scrape E baseUrl w3 of
                                  (Throws e, w4) \<Rightarrow> (Throws e, w4)
                                | (Never, w4) \<Rightarrow> (Never, w4)
                                | (Returns listings, w4) \<Rightarrow>
                                    (Returns (),
                                     emit (Respond 200
                                             (Scraped (template query) (template city) listings))
                                       (emit Close w4)))))))"

definition post_scrape :: "env \<Rightarrow> request \<Rightarrow> world" where
  "post_scrape E req = catch_respond (post_scrape_try E req initial)"

subsection \<open>The single-page variant of the route /scrape\<close>

text \<open>services/puppeteer.service.ts, lines 239 to 275.\<close>

definition post_scrape_single_try :: "env \<Rightarrow> request \<Rightarrow> world \<Rightarrow> unit outcome \<times> world" where
  "post_scrape_single_try E req w =
     (let query = body_query req; city = body_city req
      in if \<not> truthy query \<or> \<not> truthy city
         then (Returns (), emit (Respond 400 (ErrorMessage please_provide)) w)
         else
           (case launchBrowser E w of
              (Throws e, w1) \<Rightarrow> (Throws e, w1)
            | (Never, w1) \<Rightarrow> (Never, w1)
            | (Returns _, w1) \<Rightarrow>
                (case getZillowURL E (template query @ '' '' @ template city) (newPage w1) of
                   (Throws e, w2) \<Rightarrow> (Throws e, w2)
                 | (Never, w2) \<Rightarrow> (Never, w2)
                 | (Returns None, w2) \<Rightarrow>
                     (Throws (Error ''No Zillow link found in search results.''), w2)
                 | (Returns (Some zillowUrl), w2) \<Rightarrow>
                     if zillowUrl = []
                     then (Throws (Error ''No Zillow link found in search results.''), w2)
                     else
                       (case goto E zillowUrl w2 of
                          (Throws e, w3) \<Rightarrow> (Throws e, w3)
                        | (Never, w3) \<Rightarrow> (Never, w3)
                        | (Returns _, w3) \<Rightarrow>
                            (case scrapeZillowListings_single E w3 of
                               (Throws e, w4) \<Rightarrow> (Throws e, w4)
                             | (Never, w4) \<Rightarrow> (Never, w4)
                             | (Returns listings, w4) \<Rightarrow>
                                 (Returns (),
                                  emit (Respond 200 (Scraped (template query) (template city) listings))
                                    (emit Close w4)))))))"

definition post_scrape_single :: "env \<Rightarrow> request \<Rightarrow> world" where
  "post_scrape_single E req = catch_respond (post_scrape_single_try E req initial)"

section \<open>Reading a trace\<close>

text \<open>The addresses of the navigation requests of a trace, in order.\<close>

fun goto_targets :: "event list \<Rightarrow> string list" where
  "goto_targets [] = []"
| "goto_targets (Goto url # es) = url # goto_targets es"
| "goto_targets (e # es) = goto_targets es"

text \<open>The values of \<open>pageCounter\<close> with which the loop body ran, in order.\<close>

fun scraped_pages :: "event list \<Rightarrow> nat list" where
  "scraped_pages [] = []"
| "scraped_pages (Scraping_page n # es) = n # scraped_pages es"
| "scraped_pages (e # es) = scraped_pages es"

text \<open>What happened between an earlier world and a later one.\<close>

definition events_since :: "world \<Rightarrow> world \<Rightarrow> event list" where
  "events_since w w' = drop (length (trace w)) (trace w')"

section \<open>Notions of the specification\<close>

text \<open>The visible text of an element contains the brand name as a substring.\<close>

definition names_Zillow :: "element \<Rightarrow> bool" where
  "names_Zillow el \<longleftrightarrow>
     (\<exists>t pre post. textContent el = Some t \<and> t = pre @ ''Zillow'' @ post)"

text \<open>A card none of whose queries matches anything, and the record with every field absent.\<close>

definition bare_card :: card where
  "bare_card = \<lparr>price_span = None, addr_el = None, link_a = None, details_li = []\<rparr>"

definition absent_listing :: listing where
  "absent_listing = \<lparr>price = None, address = None, link = None, beds = None, baths = None\<rparr>"

text \<open>A height sequence grows without bound; a height sequence is eventually constant.\<close>

definition unbounded :: "(nat \<Rightarrow> nat) \<Rightarrow> bool" where
  "unbounded height \<longleftrightarrow> (\<forall>B. \<exists>n. B < height n)"

definition eventually_constant :: "(nat \<Rightarrow> nat) \<Rightarrow> bool" where
  "eventually_constant height \<longleftrightarrow> (\<exists>N c. \<forall>n\<ge>N. height n = c)"


section \<open>Sample inputs\<close>

text \<open>
  A page that grows by 50 px at every tick without end, and one that stays ahead of the
  scroll.
\<close>

definition slow_growth :: "nat \<Rightarrow> nat" where
  "slow_growth n = 1000 + 50 * n"

definition runaway :: "nat \<Rightarrow> nat" where
  "runaway n = 100 * Suc n + 1"

definition text_element :: "string \<Rightarrow> element" where
  "text_element t = \<lparr>textContent = Some t, href = None\<rparr>"

definition anchor :: "string \<Rightarrow> string \<Rightarrow> element" where
  "anchor t h = \<lparr>textContent = Some t, href = Some h\<rparr>"

definition bing_home :: page where
  "bing_home = \<lparr>origin = ''https://www.bing.com'', scrollHeight = (\<lambda>n. 0),
     textarea_q = Some (text_element []), input_q = None, h2_anchors = [], cards = []\<rparr>"

definition results_page :: "element list \<Rightarrow> page" where
  "results_page anchors = \<lparr>origin = ''https://www.bing.com'', scrollHeight = (\<lambda>n. 0),
     textarea_q = Some (text_element []), input_q = None, h2_anchors = anchors, cards = []\<rparr>"

definition main_st_card :: card where
  "main_st_card = \<lparr>price_span = Some (text_element '' $500,000 ''),
     addr_el = Some (text_element ''123 Main St, New York, NY''),
     link_a = Some (anchor [] ''/homedetails/1_zpid/''),
     details_li = [text_element ''2 bds'', text_element ''  '']\<rparr>"

definition blank_price_card :: card where
  "blank_price_card = \<lparr>price_span = Some (text_element ''   ''), addr_el = None,
     link_a = None, details_li = [text_element '' '']\<rparr>"

definition target :: string where
  "target = ''https://example-target.test/new-york-ny/''"

definition first_page :: page where
  "first_page = \<lparr>origin = ''https://example-target.test'', scrollHeight = (\<lambda>n. 250),
     textarea_q = None, input_q = None, h2_anchors = [], cards = [main_st_card, bare_card]\<rparr>"

definition empty_page :: page where
  "empty_page = \<lparr>origin = ''https://example-target.test'', scrollHeight = (\<lambda>n. 250),
     textarea_q = None, input_q = None, h2_anchors = [], cards = []\<rparr>"

text \<open>A site that serves the search engine, the first result page and an empty second page.\<close>

definition sample_site :: "string \<Rightarrow> page option" where
  "sample_site url =
     (if url = bing then Some bing_home
      else if url = target then Some first_page
      else if url = target @ ''2_p/'' then Some empty_page
      else None)"

text \<open>The environment in which a search shows the given result headings.\<close>

definition sample_env :: "element list \<Rightarrow> env" where
  "sample_env anchors = \<lparr>launch_ok = True, site = sample_site,
     search_results = (\<lambda>q. Some (results_page anchors)),
     new_URL = (\<lambda>l b. Some (b @ l))\<rparr>"

definition sample_anchors :: "string \<Rightarrow> element list" where
  "sample_anchors found =
     [anchor ''zillow rentals'' ''https://other.test/'',
      anchor ''New York NY Real Estate | Zillow'' found,
      anchor ''Zillow: Homes'' ''https://second.test/'']"

definition sample_request :: request where
  "sample_request = \<lparr>body_query = Some ''top home listings'', body_city = Some ''New York''\<rparr>"

text \<open>The world of the sample run when resolution has returned.\<close>

definition resolved_world :: "element list \<Rightarrow> world" where
  "resolved_world anchors =
     \<lparr>trace = [Launch, NewPage, Goto bing, Type_text ''top home listings New York'',
               Press ''Enter'', Evaluate],
      current = results_page anchors\<rparr>"

text \<open>A site every address of which serves the first result page, and a world on that page.\<close>

definition endless_env :: env where
  "endless_env = \<lparr>launch_ok = True, site = (\<lambda>url. Some first_page),
     search_results = (\<lambda>q. Some (results_page (sample_anchors target))),
     new_URL = (\<lambda>l b. Some (b @ l))\<rparr>"

definition listing_world :: world where
  "listing_world = \<lparr>trace = [], current = first_page\<rparr>"

definition main_st_listing :: listing where
  "main_st_listing = \<lparr>price = Some ''$500,000'', address = Some ''123 Main St, New York, NY'',
     link = Some ''https://example-target.test/homedetails/1_zpid/'',
     beds = None, baths = None\<rparr>"

text \<open>A resolved address without a trailing separator, and one with two.\<close>

definition unslashed :: string where
  "unslashed = ''https://example-target.test/new-york-ny''"





text \<open>
  A site that serves the search engine and, at every other address, the first result
  page; the search resolves to the address without a trailing separator.
\<close>

definition busy_env :: env where
  "busy_env = \<lparr>launch_ok = True,
     site = (\<lambda>url. if url = bing then Some bing_home else Some first_page),
     search_results = (\<lambda>q. Some (results_page (sample_anchors unslashed))),
     new_URL = (\<lambda>l b. Some (b @ l))\<rparr>"

section \<open>Strings and the in-page functions\<close>

lemma includes_str_iff: "includes_str s sub \<longleftrightarrow> (\<exists>pre post. s = pre @ sub @ post)"
proof (induction s)
  case Nil
  then show ?case by auto
next
  case (Cons c cs)
  have "(\<exists>pre post. c # cs = pre @ sub @ post) \<longleftrightarrow> sublist sub (c # cs)"
    by (simp add: sublist_def)
  also have "\<dots> \<longleftrightarrow> prefix sub (c # cs) \<or> sublist sub cs"
    by (rule sublist_Cons_right)
  also have "\<dots> \<longleftrightarrow> prefix sub (c # cs) \<or> includes_str cs sub"
    using Cons.IH by (simp add: sublist_def)
  finally show ?case by simp
qed

lemma names_Zillow_code:
  "names_Zillow el =
     (case textContent el of None \<Rightarrow> False | Some t \<Rightarrow> includes_str t ''Zillow'')"
  by (cases "textContent el") (auto simp: names_Zillow_def includes_str_iff)

lemma forEach_push_Inr:
  "forEach_push f cs acc = Inr rs \<longleftrightarrow>
     (\<exists>rs'. rs = acc @ rs' \<and> list_all2 (\<lambda>c r. f c = Inr r) cs rs')"
proof (induction cs arbitrary: acc)
  case Nil
  then show ?case by auto
next
  case (Cons c cs)
  show ?case
  proof (cases "f c")
    case (Inl e)
    then show ?thesis by (auto simp: list_all2_Cons1)
  next
    case (Inr r)
    then show ?thesis by (auto simp: Cons.IH list_all2_Cons1)
  qed
qed


lemma forEach_push_nth:
  assumes "forEach_push f cs [] = Inr rs"
  shows "length rs = length cs \<and> (\<forall>i<length cs. f (cs ! i) = Inr (rs ! i))"
proof -
  from assms have "list_all2 (\<lambda>c r. f c = Inr r) cs rs"
    by (simp add: forEach_push_Inr)
  then show ?thesis
    by (auto simp: list_all2_conv_all_nth)
qed




lemma trimmed_text_nonempty: "trimmed_text el \<noteq> Some []" "Some [] \<noteq> trimmed_text el"
  by (auto simp: trimmed_text_def or_null_def truthy_def split: option.splits)

lemma trimmed_text_blank:
  "textContent el = Some t \<Longrightarrow> trim t = [] \<Longrightarrow> trimmed_text (Some el) = None"
  by (simp add: trimmed_text_def or_null_def truthy_def)

lemma card_record_fields:
  "card_record E b c = Inr r \<Longrightarrow>
     price r = trimmed_text (price_span c) \<and> address r = trimmed_text (addr_el c) \<and>
     beds r = None \<and> baths r = None"
  by (auto simp: card_record_def split: sum.splits)

lemma card_record_details_fields:
  "card_record_details E b c = Inr r \<Longrightarrow>
     price r = trimmed_text (price_span c) \<and> address r = trimmed_text (addr_el c) \<and>
     beds r = (if length (details_li c) > 0 then trimmed_text (Some (details_li c ! 0)) else None) \<and>
     baths r = (if length (details_li c) > 1 then trimmed_text (Some (details_li c ! 1)) else None)"
  by (auto simp: card_record_details_def Let_def split: sum.splits)

lemma record_no_empty_string:
  "card_record E b c = Inr r \<or> card_record_details E b c = Inr r \<Longrightarrow>
     price r \<noteq> Some [] \<and> address r \<noteq> Some [] \<and> beds r \<noteq> Some [] \<and> baths r \<noteq> Some []"
  by (auto dest!: card_record_fields card_record_details_fields
      simp: trimmed_text_nonempty split: if_splits)




section \<open>The scroll loop\<close>

lemma timer_fires:
  "height (n + k) \<le> t + 100 * Suc k \<Longrightarrow> (\<forall>j<k. t + 100 * Suc j < height (n + j)) \<Longrightarrow>
     timer height n t = Some (t + 100 * Suc k)"
proof (induction k arbitrary: n t)
  case 0
  then show ?case
    by (subst timer.simps) (simp add: distance_def)
next
  case (Suc k)
  from Suc.prems(2) have first: "t + 100 < height n"
    by (auto dest: spec [of _ 0])
  have "timer height (Suc n) (t + 100) = Some (t + 100 + 100 * Suc k)"
  proof (rule Suc.IH)
    show "height (Suc n + k) \<le> t + 100 + 100 * Suc k"
      using Suc.prems(1) by simp
    show "\<forall>j<k. t + 100 + 100 * Suc j < height (Suc n + j)"
      using Suc.prems(2) by (auto dest: spec [of _ "Suc j" for j])
  qed
  with first show ?case
    by (subst timer.simps) (simp add: distance_def)
qed

lemma timer_Some_reached:
  assumes "timer height n t = Some r"
  shows "\<exists>k. height (n + k) \<le> t + 100 * Suc k"
proof (rule timer.raw_induct
    [where P = "\<lambda>height n t r. \<exists>k. height (n + k) \<le> t + 100 * Suc k", OF _ assms])
  fix f :: "(nat \<Rightarrow> nat) \<Rightarrow> nat \<Rightarrow> nat \<Rightarrow> nat option" and height n t r
  assume IH: "\<And>height n t r. f height n t = Some r \<Longrightarrow> \<exists>k. height (n + k) \<le> t + 100 * Suc k"
    and step: "(let totalHeight' = t + distance
                in if height n \<le> totalHeight' then Some totalHeight'
                   else f height (Suc n) totalHeight') = Some r"
  show "\<exists>k. height (n + k) \<le> t + 100 * Suc k"
  proof (cases "height n \<le> t + 100")
    case True
    then show ?thesis by (intro exI [of _ 0]) simp
  next
    case False
    with step have "f height (Suc n) (t + 100) = Some r"
      by (simp add: distance_def Let_def)
    from IH [OF this] obtain k where "height (Suc n + k) \<le> t + 100 + 100 * Suc k" ..
    then show ?thesis by (intro exI [of _ "Suc k"]) simp
  qed
qed

lemma scroll_ticks_first:
  assumes "height k \<le> 100 * Suc k" and "\<forall>j<k. 100 * Suc j < height j"
  shows "scroll_ticks height = Some (100 * Suc k)"
  using timer_fires [of height 0 k 0] assms by (simp add: scroll_ticks_def)

lemma scroll_ticks_None_iff:
  "scroll_ticks height = None \<longleftrightarrow> (\<forall>k. 100 * Suc k < height k)"
proof
  assume none: "scroll_ticks height = None"
  show "\<forall>k. 100 * Suc k < height k"
  proof (rule ccontr)
    assume "\<not> (\<forall>k. 100 * Suc k < height k)"
    then have ex: "\<exists>k. height k \<le> 100 * Suc k"
      by (auto simp: not_less)
    define k where "k = (LEAST k. height k \<le> 100 * Suc k)"
    have "height k \<le> 100 * Suc k"
      unfolding k_def using ex by (rule LeastI_ex)
    moreover have "\<forall>j<k. 100 * Suc j < height j"
      unfolding k_def using not_less_Least not_less by blast
    ultimately have "scroll_ticks height = Some (100 * Suc k)"
      by (rule scroll_ticks_first)
    with none show False by simp
  qed
next
  assume never: "\<forall>k. 100 * Suc k < height k"
  show "scroll_ticks height = None"
  proof (cases "scroll_ticks height")
    case None
    then show ?thesis .
  next
    case (Some r)
    then obtain k where "height (0 + k) \<le> 0 + 100 * Suc k"
      unfolding scroll_ticks_def by (blast dest: timer_Some_reached)
    with never have False
      by (auto simp: not_less [symmetric])
    then show ?thesis ..
  qed
qed

lemma scroll_ticks_Some_iff:
  "scroll_ticks height = Some r \<longleftrightarrow>
     (\<exists>k. r = 100 * Suc k \<and> height k \<le> 100 * Suc k \<and> (\<forall>j<k. 100 * Suc j < height j))"
proof
  assume some: "scroll_ticks height = Some r"
  then have "scroll_ticks height \<noteq> None" by simp
  then have "\<not> (\<forall>k. 100 * Suc k < height k)"
    unfolding scroll_ticks_None_iff .
  then have ex: "\<exists>k. height k \<le> 100 * Suc k"
    by (auto simp: not_less)
  define k where "k = (LEAST k. height k \<le> 100 * Suc k)"
  have 1: "height k \<le> 100 * Suc k"
    unfolding k_def using ex by (rule LeastI_ex)
  have 2: "\<forall>j<k. 100 * Suc j < height j"
    unfolding k_def using not_less_Least not_less by blast
  from 1 2 have "scroll_ticks height = Some (100 * Suc k)"
    by (rule scroll_ticks_first)
  with some have "r = 100 * Suc k" by simp
  with 1 2 show "\<exists>k. r = 100 * Suc k \<and> height k \<le> 100 * Suc k \<and> (\<forall>j<k. 100 * Suc j < height j)"
    by blast
next
  assume "\<exists>k. r = 100 * Suc k \<and> height k \<le> 100 * Suc k \<and> (\<forall>j<k. 100 * Suc j < height j)"
  then show "scroll_ticks height = Some r"
    using scroll_ticks_first by blast
qed

lemma eventually_constant_reached:
  assumes "eventually_constant height"
  shows "\<exists>k. height k \<le> 100 * Suc k"
proof -
  from assms obtain N c where c: "\<forall>n\<ge>N. height n = c"
    unfolding eventually_constant_def by blast
  then have "height (max N c) = c" by simp
  then have "height (max N c) \<le> 100 * Suc (max N c)" by simp
  then show ?thesis ..
qed

lemma scroll_ticks_250 [simp]: "scroll_ticks (\<lambda>n. 250) = Some 300"
  using scroll_ticks_first [of "\<lambda>n. 250" 2] by (simp add: less_Suc_eq numeral_2_eq_2)

section \<open>Listing extraction\<close>




text \<open>
  Claim C10. In every record the extractor emits, none of price, address, beds and baths
  is the empty string; and where the matching element exists but its text trims to the
  empty string, the field is absent. The same holds of every record of a page.
\<close>

theorem blank_text_field_absent:
  "(card_record E b c = Inr r \<or> card_record_details E b c = Inr r \<longrightarrow>
      price r \<noteq> Some [] \<and> address r \<noteq> Some [] \<and> beds r \<noteq> Some [] \<and> baths r \<noteq> Some [] \<and>
      (price_span c = Some el \<and> textContent el = Some t \<and> trim t = [] \<longrightarrow> price r = None) \<and>
      (addr_el c = Some el \<and> textContent el = Some t \<and> trim t = [] \<longrightarrow> address r = None)) \<and>
   (card_record_details E b c = Inr r \<longrightarrow>
      (0 < length (details_li c) \<and> textContent (details_li c ! 0) = Some t \<and> trim t = []
         \<longrightarrow> beds r = None) \<and>
      (1 < length (details_li c) \<and> textContent (details_li c ! 1) = Some t \<and> trim t = []
         \<longrightarrow> baths r = None)) \<and>
   (extract_listings E p = Inr rs \<or> extract_listings_details E p = Inr rs \<longrightarrow>
      (\<forall>x\<in>set rs. price x \<noteq> Some [] \<and> address x \<noteq> Some [] \<and>
                   beds x \<noteq> Some [] \<and> baths x \<noteq> Some []))"
proof -
  have fields: "price r \<noteq> Some [] \<and> address r \<noteq> Some [] \<and> beds r \<noteq> Some [] \<and> baths r \<noteq> Some [] \<and>
      (price_span c = Some el \<and> textContent el = Some t \<and> trim t = [] \<longrightarrow> price r = None) \<and>
      (addr_el c = Some el \<and> textContent el = Some t \<and> trim t = [] \<longrightarrow> address r = None)"
    if a: "card_record E b c = Inr r \<or> card_record_details E b c = Inr r"
  proof -
    from a have "price r = trimmed_text (price_span c) \<and> address r = trimmed_text (addr_el c)"
      using card_record_fields card_record_details_fields by blast
    then show ?thesis
      using record_no_empty_string [OF a] by (auto simp: trimmed_text_blank)
  qed
  have details: "(0 < length (details_li c) \<and> textContent (details_li c ! 0) = Some t \<and> trim t = []
         \<longrightarrow> beds r = None) \<and>
      (1 < length (details_li c) \<and> textContent (details_li c ! 1) = Some t \<and> trim t = []
         \<longrightarrow> baths r = None)"
    if a: "card_record_details E b c = Inr r"
    using card_record_details_fields [OF a] by (auto simp: trimmed_text_blank)
  have page: "\<forall>x\<in>set rs. price x \<noteq> Some [] \<and> address x \<noteq> Some [] \<and>
                   beds x \<noteq> Some [] \<and> baths x \<noteq> Some []"
    if a: "extract_listings E p = Inr rs \<or> extract_listings_details E p = Inr rs"
  proof
    fix x assume "x \<in> set rs"
    then obtain i where i: "i < length rs" "x = rs ! i"
      by (auto simp: in_set_conv_nth)
    from a i have "card_record E (origin p) (cards p ! i) = Inr x \<or>
                   card_record_details E (origin p) (cards p ! i) = Inr x"
      by (auto simp: extract_listings_def extract_listings_details_def
          dest!: forEach_push_nth)
    then show "price x \<noteq> Some [] \<and> address x \<noteq> Some [] \<and>
                   beds x \<noteq> Some [] \<and> baths x \<noteq> Some []"
      by (rule record_no_empty_string)
  qed
  from fields details page show ?thesis by blast
qed

theorem blank_text_field_absent_witness:
  "card_record_details (sample_env []) [] blank_price_card =
     Inr \<lparr>price = None, address = None, link = None, beds = None, baths = None\<rparr> \<and>
   price_span blank_price_card = Some (text_element ''   '') \<and>
   textContent (text_element ''   '') = Some ''   '' \<and> trim ''   '' = [] \<and>
   0 < length (details_li blank_price_card) \<and>
   extract_listings_details (sample_env []) first_page =
     Inr [\<lparr>price = Some ''$500,000'', address = Some ''123 Main St, New York, NY'',
           link = Some ''https://example-target.test/homedetails/1_zpid/'',
           beds = Some ''2 bds'', baths = None\<rparr>, absent_listing] \<and>
   list_all (\<lambda>x. price x \<noteq> Some [] \<and> address x \<noteq> Some [] \<and>
                  beds x \<noteq> Some [] \<and> baths x \<noteq> Some [])
     [\<lparr>price = Some ''$500,000'', address = Some ''123 Main St, New York, NY'',
           link = Some ''https://example-target.test/homedetails/1_zpid/'',
           beds = Some ''2 bds'', baths = None\<rparr>, absent_listing]"
proof -
  have 1: "card_record_details (sample_env []) [] blank_price_card =
     Inr \<lparr>price = None, address = None, link = None, beds = None, baths = None\<rparr>"
    by code_simp
  have 2: "price_span blank_price_card = Some (text_element ''   '')"
    "textContent (text_element ''   '') = Some ''   ''" "trim ''   '' = []"
    "0 < length (details_li blank_price_card)"
    by (simp_all add: blank_price_card_def text_element_def trim_def isWhiteSpace_def)
  have 3: "extract_listings_details (sample_env []) first_page =
     Inr [\<lparr>price = Some ''$500,000'', address = Some ''123 Main St, New York, NY'',
           link = Some ''https://example-target.test/homedetails/1_zpid/'',
           beds = Some ''2 bds'', baths = None\<rparr>, absent_listing]"
    by code_simp
  from blank_text_field_absent [of "sample_env []" "[]" blank_price_card
      "\<lparr>price = None, address = None, link = None, beds = None, baths = None\<rparr>"
      "text_element ''   ''" "''   ''" first_page
      "[\<lparr>price = Some ''$500,000'', address = Some ''123 Main St, New York, NY'',
           link = Some ''https://example-target.test/homedetails/1_zpid/'',
           beds = Some ''2 bds'', baths = None\<rparr>, absent_listing]"] 1 2 3
  show ?thesis unfolding list_all_iff by blast
qed

section \<open>Search resolution\<close>

text \<open>
  Claim C7. Over the result-heading anchors in document order, the resolver returns the
  \<open>href\<close> of the first one whose text contains \<open>Zillow\<close> as a substring, compared
  character by character; when no anchor's text contains it, it returns absence. In
  \<open>getZillowURL\<close> that value is returned, not thrown, whenever the result page is reached.
\<close>

theorem zillow_link_first_match:
  "((\<forall>el\<in>set searchResults. \<not> names_Zillow el) \<longrightarrow> zillow_link searchResults = None) \<and>
   (i < length searchResults \<and> names_Zillow (searchResults ! i) \<and>
      (\<forall>j<i. \<not> names_Zillow (searchResults ! j))
      \<longrightarrow> zillow_link searchResults = href (searchResults ! i)) \<and>
   (site E bing = Some b \<and> (textarea_q b \<noteq> None \<or> input_q b \<noteq> None) \<and>
      search_results E q = Some p
      \<longrightarrow> fst (getZillowURL E q w) = Returns (zillow_link (h2_anchors p)))"
proof -
  have none: "zillow_link searchResults = None"
    if "\<forall>el\<in>set searchResults. \<not> names_Zillow el"
  proof -
    from that have "find names_Zillow searchResults = None"
      by (simp add: find_None_iff)
    then show ?thesis
      by (simp add: zillow_link_def names_Zillow_code [symmetric])
  qed
  have first: "zillow_link searchResults = href (searchResults ! i)"
    if "i < length searchResults \<and> names_Zillow (searchResults ! i) \<and>
      (\<forall>j<i. \<not> names_Zillow (searchResults ! j))"
  proof -
    from that have "find names_Zillow searchResults = Some (searchResults ! i)"
      unfolding find_Some_iff by blast
    then show ?thesis
      by (simp add: zillow_link_def names_Zillow_code [symmetric])
  qed
  have returned: "fst (getZillowURL E q w) = Returns (zillow_link (h2_anchors p))"
    if "site E bing = Some b \<and> (textarea_q b \<noteq> None \<or> input_q b \<noteq> None) \<and>
      search_results E q = Some p"
    using that by (auto simp: getZillowURL_def goto_def emit_def Let_def split: option.splits)
  from none first returned show ?thesis by blast
qed

theorem zillow_link_first_match_witness:
  "\<not> names_Zillow (anchor ''zillow rentals'' ''https://other.test/'') \<and>
   zillow_link [anchor ''zillow rentals'' ''https://other.test/''] = None \<and>
   1 < length (sample_anchors target) \<and> names_Zillow (sample_anchors target ! 1) \<and>
   \<not> names_Zillow (sample_anchors target ! 0) \<and>
   zillow_link (sample_anchors target) = Some target \<and>
   fst (getZillowURL (sample_env (sample_anchors target)) ''top home listings New York''
          initial) = Returns (Some target)"
proof -
  have 1: "\<forall>el\<in>set [anchor ''zillow rentals'' ''https://other.test/'']. \<not> names_Zillow el"
    by (simp add: names_Zillow_code anchor_def)
  have 2: "1 < length (sample_anchors target) \<and> names_Zillow (sample_anchors target ! 1) \<and>
      (\<forall>j<1. \<not> names_Zillow (sample_anchors target ! j))"
    by (simp add: names_Zillow_code sample_anchors_def anchor_def)
  have 3: "href (sample_anchors target ! 1) = Some target"
    by (simp add: sample_anchors_def anchor_def)
  have 4: "site (sample_env (sample_anchors target)) bing = Some bing_home \<and>
      (textarea_q bing_home \<noteq> None \<or> input_q bing_home \<noteq> None) \<and>
      search_results (sample_env (sample_anchors target)) ''top home listings New York''
        = Some (results_page (sample_anchors target))"
    by (simp add: sample_env_def sample_site_def bing_home_def)
  have 5: "h2_anchors (results_page (sample_anchors target)) = sample_anchors target"
    by (simp add: results_page_def)
  note A = zillow_link_first_match [of "[anchor ''zillow rentals'' ''https://other.test/'']"]
  note B = zillow_link_first_match [of "sample_anchors target" 1
      "sample_env (sample_anchors target)" bing_home "''top home listings New York''"
      "results_page (sample_anchors target)" initial]
  from A 1 have a: "zillow_link [anchor ''zillow rentals'' ''https://other.test/''] = None"
    by blast
  from B 2 have b: "zillow_link (sample_anchors target) = href (sample_anchors target ! 1)"
    by blast
  from B 4 have c: "fst (getZillowURL (sample_env (sample_anchors target))
      ''top home listings New York'' initial)
      = Returns (zillow_link (h2_anchors (results_page (sample_anchors target))))"
    by blast
  from 1 2 3 5 a b c show ?thesis by simp
qed

section \<open>Request validation\<close>

text \<open>
  Claim C9. A request whose body lacks \<open>query\<close> or lacks \<open>city\<close> is answered with
  status 400 and the error payload, and that response is all that happens: no browser is
  launched, no page is opened and the search resolver is not entered. This holds for the
  controller and for both stand-alone routes.
\<close>

theorem missing_field_rejected:
  "body_query req = None \<or> body_city req = None \<Longrightarrow>
     trace (scrapeListings E req) = [Respond 400 (ErrorMessage please_provide)] \<and>
     trace (post_scrape E req) = [Respond 400 (ErrorMessage please_provide)] \<and>
     trace (post_scrape_single E req) = [Respond 400 (ErrorMessage please_provide)]"
  by (auto simp: scrapeListings_def scrapeListings_try_def post_scrape_def post_scrape_try_def
      post_scrape_single_def post_scrape_single_try_def catch_respond_def truthy_def emit_def
      initial_def)

theorem missing_field_rejected_witness:
  "body_query \<lparr>body_query = Some ''top home listings'', body_city = None\<rparr> = Some ''top home listings'' \<and>
   body_city \<lparr>body_query = Some ''top home listings'', body_city = None\<rparr> = None \<and>
   trace (scrapeListings (sample_env (sample_anchors target))
            \<lparr>body_query = Some ''top home listings'', body_city = None\<rparr>)
     = [Respond 400 (ErrorMessage please_provide)] \<and>
   trace (post_scrape (sample_env (sample_anchors target))
            \<lparr>body_query = Some ''top home listings'', body_city = None\<rparr>)
     = [Respond 400 (ErrorMessage please_provide)]"
  using missing_field_rejected [of "\<lparr>body_query = Some ''top home listings'', body_city = None\<rparr>"
      "sample_env (sample_anchors target)"]
  by simp

section \<open>The scroll driver\<close>

text \<open>
  Claim C8, as the code has it. Each tick adds the fixed distance of 100 to the distance
  scrolled and then reads the height anew; the scroll completes at the first tick at
  which the distance scrolled has reached the height read at that tick, and returns that
  distance. Nothing else ends the loop: it never completes exactly when the height read
  at every tick is still above the distance scrolled (as for the sample \<open>runaway\<close>), and
  such a height grows without bound; it completes for every height sequence that is
  eventually constant.
\<close>

theorem autoScroll_completion:
  "(scroll_ticks height = Some r \<longleftrightarrow>
      (\<exists>k. r = distance * Suc k \<and> height k \<le> distance * Suc k \<and>
           (\<forall>j<k. distance * Suc j < height j))) \<and>
   (scroll_ticks height = None \<longleftrightarrow> (\<forall>k. distance * Suc k < height k)) \<and>
   (scroll_ticks height = None \<longrightarrow> unbounded height) \<and>
   (eventually_constant height \<longrightarrow> scroll_ticks height \<noteq> None) \<and>
   distance = 100"
proof -
  have const: "eventually_constant height \<longrightarrow> scroll_ticks height \<noteq> None"
    using eventually_constant_reached [of height]
    by (auto simp: scroll_ticks_None_iff not_less [symmetric])
  have "unbounded height" if "\<forall>k. 100 * Suc k < height k"
    unfolding unbounded_def
  proof
    fix B :: nat
    from that have "100 * Suc B < height B" ..
    then have "B < height B" by simp
    then show "\<exists>n. B < height n" ..
  qed
  then have grows: "scroll_ticks height = None \<longrightarrow> unbounded height"
    by (simp add: scroll_ticks_None_iff)
  from const grows show ?thesis
    unfolding distance_def
    using scroll_ticks_Some_iff [of height r] scroll_ticks_None_iff [of height] by blast
qed

theorem autoScroll_completion_witness:
  "eventually_constant (\<lambda>n. 250) \<and> scroll_ticks (\<lambda>n. 250) = Some 300 \<and>
   (\<forall>k. distance * Suc k < runaway k) \<and> unbounded runaway \<and> scroll_ticks runaway = None"
proof -
  have 1: "eventually_constant (\<lambda>n. 250)"
    unfolding eventually_constant_def by blast
  have 2: "\<forall>k. distance * Suc k < runaway k"
    by (simp add: distance_def runaway_def)
  from autoScroll_completion [of "\<lambda>n. 250" 300] autoScroll_completion [of runaway 0] 1 2
  show ?thesis by simp
qed

text \<open>
  The claim as it is written fails: a height that grows without bound, but more slowly
  than the scroll advances, is caught up with at the nineteenth tick.
\<close>

theorem unbounded_height_counterexample:
  "unbounded slow_growth \<and> scroll_ticks slow_growth = Some 1900"
proof
  show "unbounded slow_growth"
    unfolding unbounded_def slow_growth_def
  proof
    fix B :: nat
    have "B < 1000 + 50 * B" by simp
    then show "\<exists>n. B < 1000 + 50 * n" ..
  qed
  have "slow_growth 18 \<le> 100 * Suc 18" "\<forall>j<18. 100 * Suc j < slow_growth j"
    by (simp_all add: slow_growth_def)
  then have "scroll_ticks slow_growth = Some (100 * Suc 18)"
    by (rule scroll_ticks_first)
  then show "scroll_ticks slow_growth = Some 1900" by simp
qed

section \<open>Traces of the page operations and of the pagination loops\<close>

lemma goto_targets_append [simp]: "goto_targets (xs @ ys) = goto_targets xs @ goto_targets ys"
  by (induction xs rule: goto_targets.induct) auto

lemma scraped_pages_append [simp]: "scraped_pages (xs @ ys) = scraped_pages xs @ scraped_pages ys"
  by (induction xs rule: scraped_pages.induct) auto

lemma events_since_append: "trace w' = trace w @ evs \<Longrightarrow> events_since w w' = evs"
  by (simp add: events_since_def)

lemma autoScroll_eq:
  "autoScroll w = (r, w') \<Longrightarrow> w' = emit AutoScroll w \<and> (r = Never \<or> r = Returns ())"
  by (auto simp: autoScroll_def split: option.splits)

lemma evaluate_eq:
  "evaluate f w = (r, w') \<Longrightarrow> w' = emit Evaluate w \<and> r \<noteq> Never"
  by (auto simp: evaluate_def split: sum.splits)

lemma goto_eq:
  "goto E url w = (r, w') \<Longrightarrow> trace w' = trace w @ [Goto url] \<and> r \<noteq> Never"
  by (auto simp: goto_def emit_def split: option.splits)

lemma decimal_digits:
  "decimal 2 = ''2''" "decimal 3 = ''3''" "decimal 4 = ''4''" "decimal 5 = ''5''"
  by code_simp+

lemma page_urls: "map (nextPageUrl b) [2..<6] = [b @ ''2_p/'', b @ ''3_p/'', b @ ''4_p/'', b @ ''5_p/'']"
  by (simp add: upt_rec nextPageUrl_def decimal_digits del: decimal.simps)

lemma while_trace:
  "\<exists>evs. trace (snd (scrapeZillowListings_while E b pc acc w)) = trace w @ evs \<and>
     prefix (goto_targets evs) (map (nextPageUrl b) [Suc pc..<Suc (Suc maxPages)]) \<and>
     prefix (scraped_pages evs) [pc..<Suc maxPages] \<and>
     count_list evs Evaluate \<le> Suc maxPages - pc \<and>
     set evs \<subseteq> range Goto \<union> range Scraping_page \<union> {AutoScroll, Evaluate}"
proof (induction E b pc acc w rule: scrapeZillowListings_while.induct)
  case (1 E b pc acc w)
  show ?case
  proof (cases "pc \<le> maxPages")
    case False
    then show ?thesis
      by (subst scrapeZillowListings_while.simps) simp
  next
    case le: True
    obtain r1 w1 where s: "autoScroll (emit (Scraping_page pc) w) = (r1, w1)"
      by (cases "autoScroll (emit (Scraping_page pc) w)")
    then have w1: "trace w1 = trace w @ [Scraping_page pc, AutoScroll]"
      and r1: "r1 = Never \<or> r1 = Returns ()"
      by (auto dest!: autoScroll_eq simp: emit_def)
    obtain r2 w2 where e: "evaluate (extract_listings E) w1 = (r2, w2)"
      by (cases "evaluate (extract_listings E) w1")
    then have w2: "trace w2 = trace w @ [Scraping_page pc, AutoScroll, Evaluate]"
      using w1 by (auto dest!: evaluate_eq simp: emit_def)
    obtain r3 w3 where g: "goto E (nextPageUrl b (pc + 1)) w2 = (r3, w3)"
      by (cases "goto E (nextPageUrl b (pc + 1)) w2")
    then have w3: "trace w3 = trace w @ [Scraping_page pc, AutoScroll, Evaluate,
        Goto (nextPageUrl b (Suc pc))]"
      using w2 by (auto dest!: goto_eq)
    have ups: "[pc..<Suc maxPages] = pc # [Suc pc..<Suc maxPages]"
      "[Suc pc..<Suc (Suc maxPages)] = Suc pc # [Suc (Suc pc)..<Suc (Suc maxPages)]"
      using le by (simp_all add: upt_rec)
    show ?thesis
    proof (cases "\<exists>ls. r1 = Returns () \<and> r2 = Returns ls \<and> r3 = Returns ()")
      case True
      then obtain ls where rs: "r1 = Returns ()" "r2 = Returns ls" "r3 = Returns ()"
        by blast
      from "1.IH" [OF le s [symmetric] rs(1) e [symmetric] rs(2) g [symmetric] rs(3)]
      obtain evs where evs:
        "trace (snd (scrapeZillowListings_while E b (pc + 1) (acc @ ls) w3)) = trace w3 @ evs"
        "prefix (goto_targets evs) (map (nextPageUrl b) [Suc (pc + 1)..<Suc (Suc maxPages)])"
        "prefix (scraped_pages evs) [pc + 1..<Suc maxPages]"
        "count_list evs Evaluate \<le> Suc maxPages - (pc + 1)"
        "set evs \<subseteq> range Goto \<union> range Scraping_page \<union> {AutoScroll, Evaluate}"
        by blast
      have unfold: "scrapeZillowListings_while E b pc acc w =
          scrapeZillowListings_while E b (pc + 1) (acc @ ls) w3"
        using le s e g rs by (subst scrapeZillowListings_while.simps) simp
      show ?thesis
        unfolding unfold
        using evs le w3 ups
        by (intro exI [of _ "[Scraping_page pc, AutoScroll, Evaluate,
              Goto (nextPageUrl b (Suc pc))] @ evs"]) auto
    next
      case False
      then have stop: "snd (scrapeZillowListings_while E b pc acc w) = w1 \<or>
          snd (scrapeZillowListings_while E b pc acc w) = w2 \<or>
          snd (scrapeZillowListings_while E b pc acc w) = w3"
        using le s e g r1
        by (subst (1 2 3) scrapeZillowListings_while.simps)
           (auto split: outcome.splits dest: evaluate_eq goto_eq)
      then show ?thesis
        using w1 w2 w3 ups le by (elim disjE) auto
    qed
  qed
qed

lemma scrape_while_trace:
  "\<exists>evs. trace (snd (scrapeZillowListings_scrape_while E b pc acc w)) = trace w @ evs \<and>
     prefix (goto_targets evs) (map (nextPageUrl b) [Suc pc..<Suc (Suc maxPages)]) \<and>
     prefix (scraped_pages evs) [pc..<Suc maxPages] \<and>
     count_list evs Evaluate \<le> Suc maxPages - pc \<and>
     set evs \<subseteq> range Goto \<union> range Scraping_page \<union> {AutoScroll, Evaluate}"
proof (induction E b pc acc w rule: scrapeZillowListings_scrape_while.induct)
  case (1 E b pc acc w)
  show ?case
  proof (cases "pc \<le> maxPages")
    case False
    then show ?thesis
      by (subst scrapeZillowListings_scrape_while.simps) simp
  next
    case le: True
    obtain r1 w1 where s: "autoScroll (emit (Scraping_page pc) w) = (r1, w1)"
      by (cases "autoScroll (emit (Scraping_page pc) w)")
    then have w1: "trace w1 = trace w @ [Scraping_page pc, AutoScroll]"
      and r1: "r1 = Never \<or> r1 = Returns ()"
      by (auto dest!: autoScroll_eq simp: emit_def)
    obtain r2 w2 where e: "evaluate (extract_listings E) w1 = (r2, w2)"
      by (cases "evaluate (extract_listings E) w1")
    then have w2: "trace w2 = trace w @ [Scraping_page pc, AutoScroll, Evaluate]"
      using w1 by (auto dest!: evaluate_eq simp: emit_def)
    obtain r3 w3 where g: "goto E (nextPageUrl b (pc + 1)) w2 = (r3, w3)"
      by (cases "goto E (nextPageUrl b (pc + 1)) w2")
    then have w3: "trace w3 = trace w @ [Scraping_page pc, AutoScroll, Evaluate,
        Goto (nextPageUrl b (Suc pc))]"
      using w2 by (auto dest!: goto_eq)
    have g': "goto E (if pc + 1 = 2 then nextPageUrl b (pc + 1) else nextPageUrl b (pc + 1)) w2
        = (r3, w3)"
      using g by simp
    have ups: "[pc..<Suc maxPages] = pc # [Suc pc..<Suc maxPages]"
      "[Suc pc..<Suc (Suc maxPages)] = Suc pc # [Suc (Suc pc)..<Suc (Suc maxPages)]"
      using le by (simp_all add: upt_rec)
    show ?thesis
    proof (cases "\<exists>ls. r1 = Returns () \<and> r2 = Returns ls \<and> length ls \<noteq> 0 \<and> r3 = Returns ()")
      case True
      then obtain ls where rs: "r1 = Returns ()" "r2 = Returns ls" "length ls \<noteq> 0"
          "r3 = Returns ()"
        by blast
      from "1.IH" [OF le s [symmetric] rs(1) e [symmetric] rs(2) rs(3) g' [symmetric] rs(4)]
      obtain evs where evs:
        "trace (snd (scrapeZillowListings_scrape_while E b (pc + 1) (acc @ ls) w3)) = trace w3 @ evs"
        "prefix (goto_targets evs) (map (nextPageUrl b) [Suc (pc + 1)..<Suc (Suc maxPages)])"
        "prefix (scraped_pages evs) [pc + 1..<Suc maxPages]"
        "count_list evs Evaluate \<le> Suc maxPages - (pc + 1)"
        "set evs \<subseteq> range Goto \<union> range Scraping_page \<union> {AutoScroll, Evaluate}"
        by blast
      have unfold: "scrapeZillowListings_scrape_while E b pc acc w =
          scrapeZillowListings_scrape_while E b (pc + 1) (acc @ ls) w3"
        using le s e g rs by (subst scrapeZillowListings_scrape_while.simps) simp
      show ?thesis
        unfolding unfold
        using evs le w3 ups
        by (intro exI [of _ "[Scraping_page pc, AutoScroll, Evaluate,
              Goto (nextPageUrl b (Suc pc))] @ evs"]) auto
    next
      case False
      then have stop: "snd (scrapeZillowListings_scrape_while E b pc acc w) = w1 \<or>
          snd (scrapeZillowListings_scrape_while E b pc acc w) = w2 \<or>
          snd (scrapeZillowListings_scrape_while E b pc acc w) = w3"
        using le s e g r1
        by (subst (1 2 3) scrapeZillowListings_scrape_while.simps)
           (auto split: outcome.splits dest: evaluate_eq goto_eq)
      then show ?thesis
        using w1 w2 w3 ups le by (elim disjE) auto
    qed
  qed
qed

lemma scrape_while_until_empty:
  assumes "k \<le> maxPages"
    and "\<forall>n. 1 < n \<and> n \<le> k \<longrightarrow> site E (nextPageUrl b n) = Some (P n)"
    and "\<forall>n. 1 \<le> n \<and> n \<le> k \<longrightarrow> scroll_ticks (scrollHeight (P n)) \<noteq> None"
    and "\<forall>n. 1 \<le> n \<and> n < k \<longrightarrow> extract_listings E (P n) = Inr (L n) \<and> L n \<noteq> []"
    and "extract_listings E (P k) = Inr []"
    and "d = k - pc" and "pc \<le> k" and "current w = P pc" and "1 \<le> pc"
  shows "\<exists>evs. scrapeZillowListings_scrape_while E b pc acc w =
           (Returns (acc @ concat (map L [pc..<k])),
            w\<lparr>trace := trace w @ evs, current := P k\<rparr>) \<and>
         goto_targets evs = map (nextPageUrl b) [Suc pc..<Suc k] \<and>
         scraped_pages evs = [pc..<Suc k]"
  using assms(6-9)
proof (induction d arbitrary: pc acc w)
  case 0
  then have pc: "pc = k" by simp
  with 0 have "scroll_ticks (scrollHeight (current w)) \<noteq> None"
    using assms(3) by simp
  then have scroll: "autoScroll (emit (Scraping_page k) w) =
      (Returns (), emit AutoScroll (emit (Scraping_page k) w))"
    by (auto simp: autoScroll_def emit_def split: option.splits)
  have ev: "evaluate (extract_listings E) (emit AutoScroll (emit (Scraping_page k) w)) =
      (Returns [], emit Evaluate (emit AutoScroll (emit (Scraping_page k) w)))"
    using assms(5) 0 pc by (simp add: evaluate_def emit_def)
  have "scrapeZillowListings_scrape_while E b k acc w =
      (Returns acc, emit Evaluate (emit AutoScroll (emit (Scraping_page k) w)))"
    using assms(1) scroll ev by (subst scrapeZillowListings_scrape_while.simps) simp
  then show ?case
    using pc 0
    by (intro exI [of _ "[Scraping_page k, AutoScroll, Evaluate]"]) (simp add: emit_def)
next
  case (Suc d)
  then have lt: "pc < k" by simp
  then have le: "pc \<le> maxPages" using assms(1) by simp
  let ?w1 = "emit AutoScroll (emit (Scraping_page pc) w)"
  let ?w2 = "emit Evaluate ?w1"
  let ?w3 = "(emit (Goto (nextPageUrl b (pc + 1))) ?w2)\<lparr>current := P (Suc pc)\<rparr>"
  have "scroll_ticks (scrollHeight (current w)) \<noteq> None"
    using assms(3) Suc.prems by simp
  then have scroll: "autoScroll (emit (Scraping_page pc) w) = (Returns (), ?w1)"
    by (auto simp: autoScroll_def emit_def split: option.splits)
  have Lpc: "extract_listings E (P pc) = Inr (L pc)" "L pc \<noteq> []"
    using assms(4) lt Suc.prems by auto
  then have ev: "evaluate (extract_listings E) ?w1 = (Returns (L pc), ?w2)"
    using Suc.prems by (simp add: evaluate_def emit_def)
  have "site E (nextPageUrl b (pc + 1)) = Some (P (Suc pc))"
    using assms(2) lt Suc.prems by simp
  then have nav: "goto E (nextPageUrl b (pc + 1)) ?w2 = (Returns (), ?w3)"
    by (simp add: goto_def)
  have unfold: "scrapeZillowListings_scrape_while E b pc acc w =
      scrapeZillowListings_scrape_while E b (pc + 1) (acc @ L pc) ?w3"
    using le scroll ev nav Lpc(2)
    by (subst scrapeZillowListings_scrape_while.simps) simp
  have "\<exists>evs. scrapeZillowListings_scrape_while E b (pc + 1) (acc @ L pc) ?w3 =
       (Returns ((acc @ L pc) @ concat (map L [pc + 1..<k])),
        ?w3\<lparr>trace := trace ?w3 @ evs, current := P k\<rparr>) \<and>
     goto_targets evs = map (nextPageUrl b) [Suc (pc + 1)..<Suc k] \<and>
     scraped_pages evs = [pc + 1..<Suc k]"
    by (rule Suc.IH) (use Suc.prems lt in simp_all)
  then obtain evs where evs:
    "scrapeZillowListings_scrape_while E b (pc + 1) (acc @ L pc) ?w3 =
       (Returns ((acc @ L pc) @ concat (map L [pc + 1..<k])),
        ?w3\<lparr>trace := trace ?w3 @ evs, current := P k\<rparr>)"
    "goto_targets evs = map (nextPageUrl b) [Suc (pc + 1)..<Suc k]"
    "scraped_pages evs = [pc + 1..<Suc k]"
    by blast
  have ups: "[pc..<k] = pc # [Suc pc..<k]" "[pc..<Suc k] = pc # [Suc pc..<Suc k]"
    "[Suc pc..<Suc k] = Suc pc # [Suc (Suc pc)..<Suc k]"
    using lt by (simp_all add: upt_rec)
  show ?case
    unfolding unfold
    using evs ups
    by (intro exI [of _ "[Scraping_page pc, AutoScroll, Evaluate,
          Goto (nextPageUrl b (Suc pc))] @ evs"]) (simp add: emit_def)
qed


section \<open>Pagination\<close>

text \<open>
  Claim C2. In one call the pagination loop, in the service and in scrape.ts alike, issues
  at most \<open>maxPages = 4\<close> navigation requests, whatever the pages contain and whatever
  the extractor returns or throws: the requests are an initial part of the addresses of
  pages 2, 3, 4 and 5, the loop body runs for an initial part of the cursor values 1, 2,
  3, 4, and the extractor is evaluated at most four times.
\<close>

theorem pagination_bounded:
  "prefix (goto_targets (events_since w (snd (scrapeZillowListings E b w))))
     [b @ ''2_p/'', b @ ''3_p/'', b @ ''4_p/'', b @ ''5_p/''] \<and>
   length (goto_targets (events_since w (snd (scrapeZillowListings E b w)))) \<le> maxPages \<and>
   prefix (scraped_pages (events_since w (snd (scrapeZillowListings E b w)))) [1, 2, 3, 4] \<and>
   count_list (events_since w (snd (scrapeZillowListings E b w))) Evaluate \<le> maxPages \<and>
   prefix (goto_targets (events_since w (snd (scrapeZillowListings_scrape E b w))))
     [b @ ''2_p/'', b @ ''3_p/'', b @ ''4_p/'', b @ ''5_p/''] \<and>
   length (goto_targets (events_since w (snd (scrapeZillowListings_scrape E b w)))) \<le> maxPages \<and>
   prefix (scraped_pages (events_since w (snd (scrapeZillowListings_scrape E b w)))) [1, 2, 3, 4] \<and>
   count_list (events_since w (snd (scrapeZillowListings_scrape E b w))) Evaluate \<le> maxPages \<and>
   maxPages = 4"
proof -
  have bounds: "prefix (goto_targets evs) [b @ ''2_p/'', b @ ''3_p/'', b @ ''4_p/'', b @ ''5_p/''] \<and>
      length (goto_targets evs) \<le> maxPages \<and>
      prefix (scraped_pages evs) [1, 2, 3, 4] \<and> count_list evs Evaluate \<le> maxPages"
    if "prefix (goto_targets evs) (map (nextPageUrl b) [Suc 1..<Suc (Suc maxPages)])"
      and "prefix (scraped_pages evs) [1..<Suc maxPages]"
      and "count_list evs Evaluate \<le> Suc maxPages - 1"
    for evs
  proof -
    have urls: "map (nextPageUrl b) [Suc 1..<Suc (Suc maxPages)] =
        [b @ ''2_p/'', b @ ''3_p/'', b @ ''4_p/'', b @ ''5_p/'']"
      using page_urls [of b] by (simp add: maxPages_def eval_nat_numeral)
    have pages: "[1..<Suc maxPages] = [1, 2, 3, 4]"
      by (simp add: maxPages_def upt_rec)
    from that(1) have "length (goto_targets evs) \<le> maxPages"
      unfolding urls by (auto dest!: prefix_length_le simp: maxPages_def)
    with that show ?thesis
      unfolding urls pages by simp
  qed
  obtain evs where evs:
    "trace (snd (scrapeZillowListings E b w)) = trace w @ evs"
    "prefix (goto_targets evs) (map (nextPageUrl b) [Suc 1..<Suc (Suc maxPages)])"
    "prefix (scraped_pages evs) [1..<Suc maxPages]"
    "count_list evs Evaluate \<le> Suc maxPages - 1"
    unfolding scrapeZillowListings_def using while_trace [of E b 1 "[]" w] by blast
  obtain evs' where evs':
    "trace (snd (scrapeZillowListings_scrape E b w)) = trace w @ evs'"
    "prefix (goto_targets evs') (map (nextPageUrl b) [Suc 1..<Suc (Suc maxPages)])"
    "prefix (scraped_pages evs') [1..<Suc maxPages]"
    "count_list evs' Evaluate \<le> Suc maxPages - 1"
    unfolding scrapeZillowListings_scrape_def using scrape_while_trace [of E b 1 "[]" w] by blast
  have 1: "events_since w (snd (scrapeZillowListings E b w)) = evs"
    using evs(1) by (rule events_since_append)
  have 2: "events_since w (snd (scrapeZillowListings_scrape E b w)) = evs'"
    using evs'(1) by (rule events_since_append)
  show ?thesis
    unfolding 1 2
    using bounds [OF evs(2-4)] bounds [OF evs'(2-4)] by (simp add: maxPages_def)
qed

theorem pagination_bounded_witness:
  "goto_targets (events_since listing_world (snd (scrapeZillowListings endless_env target listing_world)))
     = [target @ ''2_p/'', target @ ''3_p/'', target @ ''4_p/'', target @ ''5_p/''] \<and>
   scraped_pages (events_since listing_world (snd (scrapeZillowListings endless_env target listing_world)))
     = [1, 2, 3, 4] \<and>
   count_list (events_since listing_world (snd (scrapeZillowListings endless_env target listing_world)))
     Evaluate = 4 \<and>
   length (goto_targets
     (events_since listing_world (snd (scrapeZillowListings endless_env target listing_world)))) \<le> maxPages"
proof -
  have 1: "goto_targets (events_since listing_world
        (snd (scrapeZillowListings endless_env target listing_world)))
     = [target @ ''2_p/'', target @ ''3_p/'', target @ ''4_p/'', target @ ''5_p/'']"
    by code_simp
  have 2: "scraped_pages (events_since listing_world
        (snd (scrapeZillowListings endless_env target listing_world))) = [1, 2, 3, 4]"
    by code_simp
  have 3: "count_list (events_since listing_world
        (snd (scrapeZillowListings endless_env target listing_world))) Evaluate = 4"
    by code_simp
  from pagination_bounded [of listing_world endless_env target] 1 2 3
  show ?thesis by blast
qed

text \<open>
  Claim C5. In scrape.ts, let page k (at most the fourth) be the first page on which the
  extractor returns the empty sequence: the pages before it scroll to completion and
  yield non-empty sequences, and the navigations to pages 2 to k succeed. Then pagination
  halts there, with the cursor still at k: the navigation requests issued are exactly
  those to pages 2 to k, none to a later page, and the result is exactly the
  concatenation of the records of pages 1 to k - 1.
\<close>

theorem stop_on_empty_page:
  assumes "1 \<le> k" and "k \<le> maxPages"
    and "P 1 = current w"
    and "\<forall>n. 1 < n \<and> n \<le> k \<longrightarrow> site E (nextPageUrl b n) = Some (P n)"
    and "\<forall>n. 1 \<le> n \<and> n \<le> k \<longrightarrow> scroll_ticks (scrollHeight (P n)) \<noteq> None"
    and "\<forall>n. 1 \<le> n \<and> n < k \<longrightarrow> extract_listings E (P n) = Inr (L n) \<and> L n \<noteq> []"
    and "extract_listings E (P k) = Inr []"
  shows "fst (scrapeZillowListings_scrape E b w) = Returns (concat (map L [1..<k])) \<and>
         goto_targets (events_since w (snd (scrapeZillowListings_scrape E b w)))
           = map (nextPageUrl b) [2..<Suc k] \<and>
         scraped_pages (events_since w (snd (scrapeZillowListings_scrape E b w))) = [1..<Suc k]"
proof -
  from scrape_while_until_empty [OF assms(2) assms(4-7) refl assms(1) assms(3) [symmetric],
      where acc = "[]"]
  obtain evs where evs:
    "scrapeZillowListings_scrape_while E b 1 [] w =
       (Returns ([] @ concat (map L [1..<k])), w\<lparr>trace := trace w @ evs, current := P k\<rparr>)"
    "goto_targets evs = map (nextPageUrl b) [Suc 1..<Suc k]"
    "scraped_pages evs = [1..<Suc k]"
    by auto
  from evs(1) have "events_since w (snd (scrapeZillowListings_scrape E b w)) = evs"
    by (simp add: scrapeZillowListings_scrape_def events_since_def)
  with evs show ?thesis
    by (simp add: scrapeZillowListings_scrape_def eval_nat_numeral)
qed

theorem stop_on_empty_page_witness:
  "site (sample_env []) (nextPageUrl target 2) = Some empty_page \<and>
   extract_listings (sample_env []) first_page = Inr [main_st_listing, absent_listing] \<and>
   extract_listings (sample_env []) empty_page = Inr [] \<and>
   fst (scrapeZillowListings_scrape (sample_env []) target listing_world)
     = Returns [main_st_listing, absent_listing] \<and>
   goto_targets (events_since listing_world
       (snd (scrapeZillowListings_scrape (sample_env []) target listing_world)))
     = [target @ ''2_p/''] \<and>
   scraped_pages (events_since listing_world
       (snd (scrapeZillowListings_scrape (sample_env []) target listing_world))) = [1, 2]"
proof -
  let ?P = "\<lambda>n::nat. if n = 1 then first_page else empty_page"
  let ?L = "\<lambda>n::nat. [main_st_listing, absent_listing]"
  have site: "site (sample_env []) (nextPageUrl target 2) = Some empty_page"
    by (simp add: sample_env_def sample_site_def nextPageUrl_def decimal_digits target_def
        bing_def del: decimal.simps)
  have first: "extract_listings (sample_env []) first_page = Inr [main_st_listing, absent_listing]"
    by code_simp
  have empty: "extract_listings (sample_env []) empty_page = Inr []"
    by code_simp
  have 1: "(1::nat) \<le> 2" "2 \<le> maxPages" "?P 1 = current listing_world"
    by (simp_all add: maxPages_def listing_world_def)
  have 2: "\<forall>n. 1 < n \<and> n \<le> 2 \<longrightarrow> site (sample_env []) (nextPageUrl target n) = Some (?P n)"
  proof (intro allI impI)
    fix n :: nat assume "1 < n \<and> n \<le> 2"
    then have "n = 2" by simp
    with site show "site (sample_env []) (nextPageUrl target n) = Some (?P n)" by simp
  qed
  have 3: "\<forall>n. 1 \<le> n \<and> n \<le> 2 \<longrightarrow> scroll_ticks (scrollHeight (?P n)) \<noteq> None"
    by (simp add: first_page_def empty_page_def)
  have 4: "\<forall>n. 1 \<le> n \<and> n < 2 \<longrightarrow> extract_listings (sample_env []) (?P n) = Inr (?L n) \<and> ?L n \<noteq> []"
    using first by simp
  have 5: "extract_listings (sample_env []) (?P 2) = Inr []"
    using empty by simp
  have urls: "map (nextPageUrl target) [2..<Suc 2] = [target @ ''2_p/'']"
    by (simp add: nextPageUrl_def decimal_digits del: decimal.simps)
  have pages: "concat (map ?L [1..<2]) = [main_st_listing, absent_listing]" "[1..<Suc 2] = [1, 2]"
    by (simp_all add: upt_rec)
  from stop_on_empty_page [of 2 ?P listing_world "sample_env []" target ?L, OF 1 2 3 4 5]
  show ?thesis
    unfolding urls pages using site first empty by simp
qed

section \<open>Traces of the handlers\<close>

lemma getZillowURL_returns:
  "getZillowURL E q w = (Returns v, w2) \<Longrightarrow>
     trace w2 = trace w @ [Goto bing, Type_text q, Press ''Enter'', Evaluate]"
  by (auto simp: getZillowURL_def goto_def emit_def Let_def split: option.splits if_splits)

lemma scrapeZillowListings_trace:
  "scrapeZillowListings E b w = (r, w') \<Longrightarrow>
     \<exists>evs. trace w' = trace w @ evs \<and>
       prefix (goto_targets evs) (map (nextPageUrl b) [2..<6])"
  using while_trace [of E b 1 "[]" w]
  by (auto simp: scrapeZillowListings_def maxPages_def eval_nat_numeral)

lemma scrapeZillowListings_scrape_trace:
  "scrapeZillowListings_scrape E b w = (r, w') \<Longrightarrow>
     \<exists>evs. trace w' = trace w @ evs \<and>
       prefix (goto_targets evs) (map (nextPageUrl b) [2..<6])"
  using scrape_while_trace [of E b 1 "[]" w]
  by (auto simp: scrapeZillowListings_scrape_def maxPages_def eval_nat_numeral)

lemma scrapeZillowListings_single_trace:
  "scrapeZillowListings_single E w = (r, w') \<Longrightarrow>
     \<exists>evs. trace w' = trace w @ evs \<and> goto_targets evs = []"
  by (auto simp: scrapeZillowListings_single_def autoScroll_def evaluate_def emit_def
      split: option.splits sum.splits)

text \<open>What follows resolution in each handler, from the navigation to the response.\<close>

lemma after_goto:
  assumes g: "goto E url w2 = (r3, w3)"
    and run: "\<And>w3. \<exists>r4 w4 evs. scrape w3 = (r4, w4) \<and> trace w4 = trace w3 @ evs \<and>
                 prefix (goto_targets evs) urls"
  shows "\<exists>rest. trace (catch_respond
            (case goto E url w2 of
               (Throws e, w3) \<Rightarrow> (Throws e, w3)
             | (Never, w3) \<Rightarrow> (Never, w3)
             | (Returns _, w3) \<Rightarrow>
                 (case scrape w3 of
                    (Throws e, w4) \<Rightarrow> (Throws e, w4)
                  | (Never, w4) \<Rightarrow> (Never, w4)
                  | (Returns listings, w4) \<Rightarrow>
                      (Returns (), emit (Respond 200 (body listings)) (emit Close w4)))))
          = trace w2 @ Goto url # rest \<and> prefix (goto_targets rest) urls"
proof -
  from g have w3: "trace w3 = trace w2 @ [Goto url]" and r3: "r3 \<noteq> Never"
    by (auto dest: goto_eq)
  from run [of w3] obtain r4 w4 evs where s: "scrape w3 = (r4, w4)"
    and w4: "trace w4 = trace w3 @ evs" and p: "prefix (goto_targets evs) urls"
    by blast
  show ?thesis
  proof (cases r3)
    case (Returns x)
    show ?thesis
    proof (cases r4)
      case (Returns ls)
      with \<open>r3 = Returns x\<close> g s w3 w4 p show ?thesis
        by (intro exI [of _ "evs @ [Close, Respond 200 (body ls)]"])
           (simp add: catch_respond_def emit_def)
    next
      case (Throws e)
      with \<open>r3 = Returns x\<close> g s w3 w4 p show ?thesis
        by (intro exI [of _ "evs @ [Respond 500 (Failure e)]"])
           (simp add: catch_respond_def emit_def)
    next
      case Never
      with \<open>r3 = Returns x\<close> g s w3 w4 p show ?thesis
        by (intro exI [of _ evs]) (simp add: catch_respond_def emit_def)
    qed
  next
    case (Throws e)
    with g w3 show ?thesis
      by (intro exI [of _ "[Respond 500 (Failure e)]"]) (simp add: catch_respond_def emit_def)
  next
    case Never
    with r3 show ?thesis by simp
  qed
qed

lemma scrapeListings_after_resolution:
  assumes "truthy (body_query req)" and "truthy (body_city req)" and "launch_ok E"
    and "getZillowURL E (template (body_query req) @ '' '' @ template (body_city req))
           (newPage (emit Launch initial)) = (Returns (Some u), w2)"
    and "u \<noteq> []"
  shows "\<exists>rest. trace (scrapeListings E req) = trace w2 @ Goto u # rest \<and>
           prefix (goto_targets rest) (map (nextPageUrl u) [2..<6])"
proof -
  obtain r3 w3 where g: "goto E u w2 = (r3, w3)"
    by (cases "goto E u w2")
  have run: "\<exists>r4 w4 evs. scrapeZillowListings E u w3 = (r4, w4) \<and> trace w4 = trace w3 @ evs \<and>
      prefix (goto_targets evs) (map (nextPageUrl u) [2..<6])" for w3
    using scrapeZillowListings_trace [of E u w3] by (cases "scrapeZillowListings E u w3") auto
  from after_goto [of E u w2 r3 w3 "scrapeZillowListings E u", OF g run]
  show ?thesis
    using assms by (simp add: scrapeListings_def scrapeListings_try_def launchBrowser_def)
qed

lemma post_scrape_single_after_resolution:
  assumes "truthy (body_query req)" and "truthy (body_city req)" and "launch_ok E"
    and "getZillowURL E (template (body_query req) @ '' '' @ template (body_city req))
           (newPage (emit Launch initial)) = (Returns (Some u), w2)"
    and "u \<noteq> []"
  shows "\<exists>rest. trace (post_scrape_single E req) = trace w2 @ Goto u # rest \<and>
           prefix (goto_targets rest) []"
proof -
  obtain r3 w3 where g: "goto E u w2 = (r3, w3)"
    by (cases "goto E u w2")
  have run: "\<exists>r4 w4 evs. scrapeZillowListings_single E w3 = (r4, w4) \<and>
      trace w4 = trace w3 @ evs \<and> prefix (goto_targets evs) []" for w3
    using scrapeZillowListings_single_trace [of E w3]
    by (cases "scrapeZillowListings_single E w3") auto
  from after_goto [of E u w2 r3 w3 "scrapeZillowListings_single E", OF g run]
  show ?thesis
    using assms
    by (simp add: post_scrape_single_def post_scrape_single_try_def launchBrowser_def)
qed

lemma post_scrape_after_resolution:
  assumes "truthy (body_query req)" and "truthy (body_city req)" and "launch_ok E"
    and "getZillowURL E (template (body_query req) @ '' '' @ template (body_city req))
           (newPage (emit Launch initial)) = (Returns (Some u), w2)"
    and "u \<noteq> []"
  shows "\<exists>rest. trace (post_scrape E req) = trace w2 @ Goto (baseUrl_of u) # rest \<and>
           prefix (goto_targets rest) (map (nextPageUrl (baseUrl_of u)) [2..<6])"
proof -
  obtain r3 w3 where g: "goto E (baseUrl_of u) w2 = (r3, w3)"
    by (cases "goto E (baseUrl_of u) w2")
  have run: "\<exists>r4 w4 evs. scrapeZillowListings_scrape E (baseUrl_of u) w3 = (r4, w4) \<and>
      trace w4 = trace w3 @ evs \<and>
      prefix (goto_targets evs) (map (nextPageUrl (baseUrl_of u)) [2..<6])" for w3
    using scrapeZillowListings_scrape_trace [of E "baseUrl_of u" w3]
    by (cases "scrapeZillowListings_scrape E (baseUrl_of u) w3") auto
  from after_goto [of E "baseUrl_of u" w2 r3 w3 "scrapeZillowListings_scrape E (baseUrl_of u)",
      OF g run]
  show ?thesis
    using assms by (simp add: post_scrape_def post_scrape_try_def launchBrowser_def Let_def)
qed

lemma baseUrl_of_cases:
  "(endsWith u ''/'' \<longrightarrow> baseUrl_of u = u) \<and> (\<not> endsWith u ''/'' \<longrightarrow> baseUrl_of u = u @ ''/'')"
  by (simp add: baseUrl_of_def)





section \<open>The session is closed on success only\<close>

lemma getZillowURL_trace:
  "getZillowURL E q w = (r, w') \<Longrightarrow>
     \<exists>evs. trace w' = trace w @ evs \<and>
       set evs \<subseteq> {Goto bing, Type_text q, Press ''Enter'', Evaluate}"
  by (auto simp: getZillowURL_def goto_def emit_def Let_def split: option.splits if_splits)

lemma quiet_events:
  "set evs \<subseteq> range Goto \<union> range Scraping_page \<union> {AutoScroll, Evaluate} \<Longrightarrow>
     count_list evs Close = 0 \<and> (\<forall>s p. Respond s p \<notin> set evs)"
  by (auto simp: count_list_0_iff)

lemma quiet_resolution:
  "set evs \<subseteq> {Goto bing, Type_text q, Press ''Enter'', Evaluate} \<Longrightarrow>
     count_list evs Close = 0 \<and> (\<forall>s p. Respond s p \<notin> set evs)"
  by (auto simp: count_list_0_iff)

lemma after_goto_release:
  assumes quiet: "count_list (trace w2) Close = 0" "\<forall>s p. Respond s p \<notin> set (trace w2)"
    and run: "\<And>w3. \<exists>r4 w4 evs. scrape w3 = (r4, w4) \<and> trace w4 = trace w3 @ evs \<and>
       set evs \<subseteq> range Goto \<union> range Scraping_page \<union> {AutoScroll, Evaluate}"
    and final: "final = catch_respond
            (case goto E url w2 of
               (Throws e, w3) \<Rightarrow> (Throws e, w3)
             | (Never, w3) \<Rightarrow> (Never, w3)
             | (Returns _, w3) \<Rightarrow>
                 (case scrape w3 of
                    (Throws e, w4) \<Rightarrow> (Throws e, w4)
                  | (Never, w4) \<Rightarrow> (Never, w4)
                  | (Returns listings, w4) \<Rightarrow>
                      (Returns (), emit (Respond 200 (body listings)) (emit Close w4))))"
  shows "count_list (trace final) Close =
           (if \<exists>p. Respond 200 p \<in> set (trace final) then 1 else 0)"
proof -
  obtain r3 w3 where g: "goto E url w2 = (r3, w3)"
    by (cases "goto E url w2")
  then have w3: "trace w3 = trace w2 @ [Goto url]" and r3: "r3 \<noteq> Never"
    by (auto dest: goto_eq)
  from run [of w3] obtain r4 w4 evs where s: "scrape w3 = (r4, w4)"
    and w4: "trace w4 = trace w3 @ evs"
    and q: "set evs \<subseteq> range Goto \<union> range Scraping_page \<union> {AutoScroll, Evaluate}"
    by blast
  from quiet_events [OF q] have q': "count_list evs Close = 0" "\<forall>s p. Respond s p \<notin> set evs"
    by blast+
  show ?thesis
  proof (cases r3)
    case (Returns x)
    then show ?thesis
      unfolding final using g s w3 w4 q' quiet
      by (cases r4) (auto simp: catch_respond_def emit_def)
  next
    case (Throws e)
    then show ?thesis
      unfolding final using g w3 quiet by (auto simp: catch_respond_def emit_def)
  next
    case Never
    with r3 show ?thesis by simp
  qed
qed


text \<open>
  In each handler the browser is closed exactly when the run ends with the response of
  status 200, and then once; a run that ends otherwise leaves it open.
\<close>

lemma scrapeListings_release:
  "count_list (trace (scrapeListings E req)) Close =
     (if \<exists>p. Respond 200 p \<in> set (trace (scrapeListings E req)) then 1 else 0)"
proof (cases "truthy (body_query req) \<and> truthy (body_city req) \<and> launch_ok E")
  case False
  then show ?thesis
    by (auto simp: scrapeListings_def scrapeListings_try_def launchBrowser_def catch_respond_def
        emit_def initial_def Let_def)
next
  case True
  let ?q = "template (body_query req) @ '' '' @ template (body_city req)"
  obtain r2 w2 where z: "getZillowURL E ?q (newPage (emit Launch initial)) = (r2, w2)"
    by (cases "getZillowURL E ?q (newPage (emit Launch initial))")
  from getZillowURL_trace [OF z] obtain evs where
    evs: "trace w2 = [Launch, NewPage] @ evs"
      "set evs \<subseteq> {Goto bing, Type_text ?q, Press ''Enter'', Evaluate}"
    by (auto simp: newPage_def emit_def initial_def)
  from quiet_resolution [OF evs(2)] evs(1)
  have quiet: "count_list (trace w2) Close = 0" "\<forall>s p. Respond s p \<notin> set (trace w2)"
    by auto
  have run: "\<exists>r4 w4 evs. scrapeZillowListings E u w3 = (r4, w4) \<and> trace w4 = trace w3 @ evs \<and>
      set evs \<subseteq> range Goto \<union> range Scraping_page \<union> {AutoScroll, Evaluate}" for u w3
    using while_trace [of E u 1 "[]" w3]
    by (cases "scrapeZillowListings E u w3") (auto simp: scrapeZillowListings_def)
  show ?thesis
  proof (cases "\<exists>u. r2 = Returns (Some u) \<and> u \<noteq> []")
    case True
    then obtain u where u: "r2 = Returns (Some u)" "u \<noteq> []" by blast
    show ?thesis
      by (rule after_goto_release [where scrape = "scrapeZillowListings E u" and E = E
              and url = u
              and body = "Scraped (template (body_query req)) (template (body_city req))",
            OF quiet run])
         (use \<open>truthy (body_query req) \<and> truthy (body_city req) \<and> launch_ok E\<close> z u in
           \<open>simp add: scrapeListings_def scrapeListings_try_def launchBrowser_def Let_def\<close>)
  next
    case False
    then show ?thesis
      using \<open>truthy (body_query req) \<and> truthy (body_city req) \<and> launch_ok E\<close> z quiet
      by (cases r2)
         (auto simp: scrapeListings_def scrapeListings_try_def launchBrowser_def
            catch_respond_def emit_def Let_def split: option.splits)
  qed
qed

lemma post_scrape_release:
  "count_list (trace (post_scrape E req)) Close =
     (if \<exists>p. Respond 200 p \<in> set (trace (post_scrape E req)) then 1 else 0)"
proof (cases "truthy (body_query req) \<and> truthy (body_city req) \<and> launch_ok E")
  case False
  then show ?thesis
    by (auto simp: post_scrape_def post_scrape_try_def launchBrowser_def catch_respond_def
        emit_def initial_def Let_def)
next
  case True
  let ?q = "template (body_query req) @ '' '' @ template (body_city req)"
  obtain r2 w2 where z: "getZillowURL E ?q (newPage (emit Launch initial)) = (r2, w2)"
    by (cases "getZillowURL E ?q (newPage (emit Launch initial))")
  from getZillowURL_trace [OF z] obtain evs where
    evs: "trace w2 = [Launch, NewPage] @ evs"
      "set evs \<subseteq> {Goto bing, Type_text ?q, Press ''Enter'', Evaluate}"
    by (auto simp: newPage_def emit_def initial_def)
  from quiet_resolution [OF evs(2)] evs(1)
  have quiet: "count_list (trace w2) Close = 0" "\<forall>s p. Respond s p \<notin> set (trace w2)"
    by auto
  have run: "\<exists>r4 w4 evs. scrapeZillowListings_scrape E u w3 = (r4, w4) \<and>
      trace w4 = trace w3 @ evs \<and>
      set evs \<subseteq> range Goto \<union> range Scraping_page \<union> {AutoScroll, Evaluate}" for u w3
    using scrape_while_trace [of E u 1 "[]" w3]
    by (cases "scrapeZillowListings_scrape E u w3") (auto simp: scrapeZillowListings_scrape_def)
  show ?thesis
  proof (cases "\<exists>u. r2 = Returns (Some u) \<and> u \<noteq> []")
    case True
    then obtain u where u: "r2 = Returns (Some u)" "u \<noteq> []" by blast
    show ?thesis
      by (rule after_goto_release [where scrape = "scrapeZillowListings_scrape E (baseUrl_of u)" and E = E
              and url = "baseUrl_of u"
              and body = "Scraped (template (body_query req)) (template (body_city req))",
            OF quiet run])
         (use \<open>truthy (body_query req) \<and> truthy (body_city req) \<and> launch_ok E\<close> z u in
           \<open>simp add: post_scrape_def post_scrape_try_def launchBrowser_def Let_def\<close>)
  next
    case False
    then show ?thesis
      using \<open>truthy (body_query req) \<and> truthy (body_city req) \<and> launch_ok E\<close> z quiet
      by (cases r2)
         (auto simp: post_scrape_def post_scrape_try_def launchBrowser_def
            catch_respond_def emit_def Let_def split: option.splits)
  qed
qed

lemma post_scrape_single_release:
  "count_list (trace (post_scrape_single E req)) Close =
     (if \<exists>p. Respond 200 p \<in> set (trace (post_scrape_single E req)) then 1 else 0)"
proof (cases "truthy (body_query req) \<and> truthy (body_city req) \<and> launch_ok E")
  case False
  then show ?thesis
    by (auto simp: post_scrape_single_def post_scrape_single_try_def launchBrowser_def catch_respond_def
        emit_def initial_def Let_def)
next
  case True
  let ?q = "template (body_query req) @ '' '' @ template (body_city req)"
  obtain r2 w2 where z: "getZillowURL E ?q (newPage (emit Launch initial)) = (r2, w2)"
    by (cases "getZillowURL E ?q (newPage (emit Launch initial))")
  from getZillowURL_trace [OF z] obtain evs where
    evs: "trace w2 = [Launch, NewPage] @ evs"
      "set evs \<subseteq> {Goto bing, Type_text ?q, Press ''Enter'', Evaluate}"
    by (auto simp: newPage_def emit_def initial_def)
  from quiet_resolution [OF evs(2)] evs(1)
  have quiet: "count_list (trace w2) Close = 0" "\<forall>s p. Respond s p \<notin> set (trace w2)"
    by auto
  have run: "\<exists>r4 w4 evs. scrapeZillowListings_single E w3 = (r4, w4) \<and>
      trace w4 = trace w3 @ evs \<and>
      set evs \<subseteq> range Goto \<union> range Scraping_page \<union> {AutoScroll, Evaluate}" for w3
    by (cases "scrapeZillowListings_single E w3")
       (auto simp: scrapeZillowListings_single_def autoScroll_def evaluate_def emit_def
          split: option.splits sum.splits)
  show ?thesis
  proof (cases "\<exists>u. r2 = Returns (Some u) \<and> u \<noteq> []")
    case True
    then obtain u where u: "r2 = Returns (Some u)" "u \<noteq> []" by blast
    show ?thesis
      by (rule after_goto_release [where scrape = "scrapeZillowListings_single E" and E = E
              and url = u
              and body = "Scraped (template (body_query req)) (template (body_city req))",
            OF quiet run])
         (use \<open>truthy (body_query req) \<and> truthy (body_city req) \<and> launch_ok E\<close> z u in
           \<open>simp add: post_scrape_single_def post_scrape_single_try_def launchBrowser_def Let_def\<close>)
  next
    case False
    then show ?thesis
      using \<open>truthy (body_query req) \<and> truthy (body_city req) \<and> launch_ok E\<close> z quiet
      by (cases r2)
         (auto simp: post_scrape_single_def post_scrape_single_try_def launchBrowser_def
            catch_respond_def emit_def Let_def split: option.splits)
  qed
qed

section \<open>From resolution to the first page\<close>

text \<open>
  Claim C3, as the code has it. Let the request carry a query and a city, the browser
  start, and the search resolver return a non-empty URL. Then the next thing the handler
  does is a navigation: in the controller and in the single-page route it targets exactly
  the resolved URL; in scrape.ts it targets the resolved URL followed by a path separator
  when the URL does not end with one, and exactly the resolved URL when it does.
\<close>

theorem first_navigation_target:
  assumes "truthy (body_query req)" and "truthy (body_city req)" and "launch_ok E"
    and "getZillowURL E (template (body_query req) @ '' '' @ template (body_city req))
           (newPage (emit Launch initial)) = (Returns (Some u), w2)"
    and "u \<noteq> []"
  shows "take 1 (events_since w2 (scrapeListings E req)) = [Goto u] \<and>
         take 1 (events_since w2 (post_scrape_single E req)) = [Goto u] \<and>
         take 1 (events_since w2 (post_scrape E req)) = [Goto (baseUrl_of u)] \<and>
         (endsWith u ''/'' \<longrightarrow> baseUrl_of u = u) \<and>
         (\<not> endsWith u ''/'' \<longrightarrow> baseUrl_of u = u @ ''/'')"
proof -
  from scrapeListings_after_resolution [OF assms]
  have 1: "take 1 (events_since w2 (scrapeListings E req)) = [Goto u]"
    by (auto simp: events_since_def)
  from post_scrape_single_after_resolution [OF assms]
  have 2: "take 1 (events_since w2 (post_scrape_single E req)) = [Goto u]"
    by (auto simp: events_since_def)
  from post_scrape_after_resolution [OF assms]
  have 3: "take 1 (events_since w2 (post_scrape E req)) = [Goto (baseUrl_of u)]"
    by (auto simp: events_since_def)
  from 1 2 3 baseUrl_of_cases [of u] show ?thesis by blast
qed

theorem first_navigation_target_witness:
  "truthy (body_query sample_request) \<and> truthy (body_city sample_request) \<and>
   launch_ok (sample_env (sample_anchors target)) \<and>
   getZillowURL (sample_env (sample_anchors target)) ''top home listings New York''
     (newPage (emit Launch initial)) = (Returns (Some target), resolved_world (sample_anchors target)) \<and>
   take 1 (events_since (resolved_world (sample_anchors target))
             (scrapeListings (sample_env (sample_anchors target)) sample_request)) = [Goto target] \<and>
   take 1 (events_since (resolved_world (sample_anchors target))
             (post_scrape (sample_env (sample_anchors target)) sample_request)) = [Goto target] \<and>
   endsWith target ''/''"
proof -
  have 1: "truthy (body_query sample_request)" "truthy (body_city sample_request)"
    "launch_ok (sample_env (sample_anchors target))"
    by (simp_all add: sample_request_def truthy_def sample_env_def)
  have q: "template (body_query sample_request) @ '' '' @ template (body_city sample_request)
      = ''top home listings New York''"
    by (simp add: sample_request_def template_def)
  have link: "zillow_link (sample_anchors target) = Some target"
    by code_simp
  have 2: "getZillowURL (sample_env (sample_anchors target)) ''top home listings New York''
     (newPage (emit Launch initial)) = (Returns (Some target), resolved_world (sample_anchors target))"
    by (simp add: getZillowURL_def goto_def sample_env_def sample_site_def bing_home_def
        newPage_def emit_def initial_def resolved_world_def results_page_def link)
  have 3: "target \<noteq> []" "endsWith target ''/''"
    by (simp_all add: target_def endsWith_def suffix_to_prefix)
  from first_navigation_target [OF 1, of target "resolved_world (sample_anchors target)"] q 2 3 1
  show ?thesis by simp
qed

text \<open>
  The claim as it is written fails in scrape.ts: the resolver returns an address without
  a trailing separator, and the handler never navigates to that address.
\<close>

theorem first_navigation_counterexample:
  "fst (getZillowURL (sample_env (sample_anchors unslashed)) ''top home listings New York''
          (newPage (emit Launch initial))) = Returns (Some unslashed) \<and>
   goto_targets (trace (post_scrape (sample_env (sample_anchors unslashed)) sample_request))
     = [''https://www.bing.com/'', ''https://example-target.test/new-york-ny/'',
        ''https://example-target.test/new-york-ny/2_p/''] \<and>
   unslashed = ''https://example-target.test/new-york-ny''"
proof -
  have 1: "fst (getZillowURL (sample_env (sample_anchors unslashed)) ''top home listings New York''
          (newPage (emit Launch initial))) = Returns (Some unslashed)"
    by code_simp
  have 2: "goto_targets (trace (post_scrape (sample_env (sample_anchors unslashed)) sample_request))
     = [''https://www.bing.com/'', ''https://example-target.test/new-york-ny/'',
        ''https://example-target.test/new-york-ny/2_p/'']"
    by code_simp
  from 1 2 show ?thesis by (simp add: unslashed_def)
qed

section \<open>The addresses of the result pages\<close>







text \<open>
  The controller hands the resolved URL to its loop as it is: on the same run its page
  addresses lack the separator.
\<close>

lemma controller_keeps_resolved_url:
  "goto_targets (trace (scrapeListings busy_env sample_request))
     = [''https://www.bing.com/'', ''https://example-target.test/new-york-ny'',
        ''https://example-target.test/new-york-ny2_p/'',
        ''https://example-target.test/new-york-ny3_p/'',
        ''https://example-target.test/new-york-ny4_p/'',
        ''https://example-target.test/new-york-ny5_p/'']"
  by code_simp

section \<open>Release of the browser session\<close>

text \<open>
  Claim C1 at its failing inputs. The controller is run on a request with query and city.
  When no result heading names Zillow, the handler launches a browser, throws, and answers
  with status 500: the browser is never closed. When the navigation to the third result
  page fails, the same happens. scrape.ts behaves alike. Only a run that succeeds closes
  the browser, once, before it responds.
\<close>

theorem session_left_open_on_failure:
  "trace (scrapeListings (sample_env []) sample_request)
     = [Launch, NewPage, Goto ''https://www.bing.com/'',
        Type_text ''top home listings New York'', Press ''Enter'', Evaluate,
        Respond 500 (Failure (Error ''No Zillow link found.''))] \<and>
   count_list (trace (scrapeListings (sample_env []) sample_request)) Launch = 1 \<and>
   count_list (trace (scrapeListings (sample_env []) sample_request)) Close = 0 \<and>
   trace (scrapeListings (sample_env (sample_anchors target)) sample_request)
     = [Launch, NewPage, Goto ''https://www.bing.com/'',
        Type_text ''top home listings New York'', Press ''Enter'', Evaluate,
        Goto ''https://example-target.test/new-york-ny/'',
        Scraping_page 1, AutoScroll, Evaluate,
        Goto ''https://example-target.test/new-york-ny/2_p/'',
        Scraping_page 2, AutoScroll, Evaluate,
        Goto ''https://example-target.test/new-york-ny/3_p/'',
        Respond 500 (Failure NavigationError)] \<and>
   count_list (trace (scrapeListings (sample_env (sample_anchors target)) sample_request)) Launch = 1 \<and>
   count_list (trace (scrapeListings (sample_env (sample_anchors target)) sample_request)) Close = 0 \<and>
   trace (post_scrape (sample_env []) sample_request)
     = [Launch, NewPage, Goto ''https://www.bing.com/'',
        Type_text ''top home listings New York'', Press ''Enter'', Evaluate,
        Respond 500 (Failure (Error ''No Zillow link found in search results.''))] \<and>
   trace (post_scrape (sample_env (sample_anchors target)) sample_request)
     = [Launch, NewPage, Goto ''https://www.bing.com/'',
        Type_text ''top home listings New York'', Press ''Enter'', Evaluate,
        Goto ''https://example-target.test/new-york-ny/'',
        Scraping_page 1, AutoScroll, Evaluate,
        Goto ''https://example-target.test/new-york-ny/2_p/'',
        Scraping_page 2, AutoScroll, Evaluate, Close,
        Respond 200 (Scraped ''top home listings'' ''New York''
                       [main_st_listing, absent_listing])]"
proof -
  have 1: "trace (scrapeListings (sample_env []) sample_request)
     = [Launch, NewPage, Goto ''https://www.bing.com/'',
        Type_text ''top home listings New York'', Press ''Enter'', Evaluate,
        Respond 500 (Failure (Error ''No Zillow link found.''))]"
    by code_simp
  have 2: "trace (scrapeListings (sample_env (sample_anchors target)) sample_request)
     = [Launch, NewPage, Goto ''https://www.bing.com/'',
        Type_text ''top home listings New York'', Press ''Enter'', Evaluate,
        Goto ''https://example-target.test/new-york-ny/'',
        Scraping_page 1, AutoScroll, Evaluate,
        Goto ''https://example-target.test/new-york-ny/2_p/'',
        Scraping_page 2, AutoScroll, Evaluate,
        Goto ''https://example-target.test/new-york-ny/3_p/'',
        Respond 500 (Failure NavigationError)]"
    by code_simp
  have 3: "trace (post_scrape (sample_env []) sample_request)
     = [Launch, NewPage, Goto ''https://www.bing.com/'',
        Type_text ''top home listings New York'', Press ''Enter'', Evaluate,
        Respond 500 (Failure (Error ''No Zillow link found in search results.''))]"
    by code_simp
  have 4: "trace (post_scrape (sample_env (sample_anchors target)) sample_request)
     = [Launch, NewPage, Goto ''https://www.bing.com/'',
        Type_text ''top home listings New York'', Press ''Enter'', Evaluate,
        Goto ''https://example-target.test/new-york-ny/'',
        Scraping_page 1, AutoScroll, Evaluate,
        Goto ''https://example-target.test/new-york-ny/2_p/'',
        Scraping_page 2, AutoScroll, Evaluate, Close,
        Respond 200 (Scraped ''top home listings'' ''New York''
                       [main_st_listing, absent_listing])]"
    by code_simp
  show ?thesis
    unfolding 1 2 3 4 by simp
qed

end
